theory Spec2Isabelle
  imports
    Complex_Main
    "HOL-Library.Char_ord"
    "HOL-Library.List_Lexorder"
    "HOL-Library.Product_Lexorder"
    "HOL-Library.Word"
begin

section \<open>The pool database: tables read by the review\<close>

text \<open>
  The review program \<open>pr-review.cpp\<close> computes its report with SQL over the pool
  database. Tables are lists of rows (a table may hold a row twice, and the engine hands
  rows out in some order), rows are records of their columns. Text columns are
  \<^typ>\<open>string\<close>, integer columns are \<^typ>\<open>int\<close>. A column that can be \<open>NULL\<close> only
  because of a \<open>LEFT JOIN\<close> is an \<^typ>\<open>'a option\<close>.
\<close>

text \<open>\<open>git_files\<close>: one row per file of the diff, written by \<open>diff_file_cb_c\<close>.\<close>

record git_file =
  git_filename :: string
  git_status :: int

text \<open>\<open>all_items_view\<close>: the pool's table of stored items, columns used here.\<close>

record item =
  item_type :: string
  item_uuid :: string
  item_name :: string
  item_filename :: string

text \<open>\<open>models\<close>: 3D models of packages.\<close>

record model =
  model_package_uuid :: string
  model_filename :: string

text \<open>\<open>parts\<close>: \<open>base\<close> is the uuid of the part this one derives from, or the nil uuid.\<close>

record part =
  part_uuid :: string
  part_base :: string
  part_MPN :: string

text \<open>\<open>dependencies\<close>: the item \<open>(type, uuid)\<close> uses the item \<open>(dep_type, dep_uuid)\<close>.\<close>

record dependency =
  d_type :: string
  d_uuid :: string
  d_dep_type :: string
  d_dep_uuid :: string

text \<open>\<open>symbols\<close>: each symbol belongs to one unit.\<close>

record symbol =
  symbol_uuid :: string
  symbol_unit :: string
  symbol_name :: string

text \<open>The database handle \<open>pool.db\<close>: the tables the review reads.\<close>

record pool_db =
  git_files :: "git_file list"
  all_items_view :: "item list"
  models :: "model list"
  parts :: "part list"
  dependencies :: "dependency list"
  symbols :: "symbol list"

definition nil_uuid :: string where
  "nil_uuid = ''00000000-0000-0000-0000-000000000000''"

section \<open>SQL operators\<close>

text \<open>
  \<open>A INNER JOIN B ON c\<close>: every pair of rows that satisfies \<open>c\<close>.
\<close>

definition inner_join :: "'a list \<Rightarrow> 'b list \<Rightarrow> ('a \<Rightarrow> 'b \<Rightarrow> bool) \<Rightarrow> ('a \<times> 'b) list" where
  "inner_join xs ys on = concat (map (\<lambda>x. map (\<lambda>y. (x, y)) (filter (on x) ys)) xs)"

text \<open>
  \<open>A LEFT JOIN B ON c\<close>: as the inner join, and a row of \<open>A\<close> without partner is kept
  once, with \<open>NULL\<close> in every column of \<open>B\<close> (here \<open>None\<close>).
\<close>

definition left_join :: "'a list \<Rightarrow> 'b list \<Rightarrow> ('a \<Rightarrow> 'b \<Rightarrow> bool) \<Rightarrow> ('a \<times> 'b option) list" where
  "left_join xs ys on =
     concat (map (\<lambda>x. if filter (on x) ys = [] then [(x, None)]
                       else map (\<lambda>y. (x, Some y)) (filter (on x) ys)) xs)"

text \<open>
  \<open>enqueue seen xs\<close>: the rows of \<open>xs\<close> that are neither in \<open>seen\<close> nor earlier in
  \<open>xs\<close>, in the order of \<open>xs\<close>. It is the duplicate elimination of \<open>UNION\<close> and of
  \<open>SELECT DISTINCT\<close>.
\<close>

primrec enqueue :: "'a list \<Rightarrow> 'a list \<Rightarrow> 'a list" where
  "enqueue seen [] = []"
| "enqueue seen (x # xs) =
     (if x \<in> set seen then enqueue seen xs else x # enqueue (x # seen) xs)"

definition sql_distinct :: "'a list \<Rightarrow> 'a list" where
  "sql_distinct xs = enqueue [] xs"

text \<open>
  \<open>WITH RECURSIVE t AS (initial UNION recursive)\<close>, as SQLite runs it: the rows of the
  initial select go to a queue; while the queue is not empty one row is taken out,
  the recursive select runs with that row as the only row of \<open>t\<close>, and those of its
  results that were never put in the queue before are appended to it. The table is the
  rows in the order they entered the queue. Nothing bounds the number of rounds, so the
  value is \<open>None\<close> when the queue never runs empty.
\<close>

partial_function (option) cte_loop :: "('a \<Rightarrow> 'a list) \<Rightarrow> 'a list \<Rightarrow> 'a list \<Rightarrow> 'a list option" where
  "cte_loop step queue seen =
     (case queue of
        [] \<Rightarrow> Some seen
      | r # q \<Rightarrow> cte_loop step (q @ enqueue seen (step r)) (seen @ enqueue seen (step r)))"

declare cte_loop.simps [code]

definition recursive_union :: "'a list \<Rightarrow> ('a \<Rightarrow> 'a list) \<Rightarrow> 'a list option" where
  "recursive_union initial step = cte_loop step (sql_distinct initial) (sql_distinct initial)"

section \<open>Resolving the changed files\<close>

text \<open>
  The view \<open>git_files_view\<close>:
  \<^verbatim>\<open>SELECT type, uuid, name, filename, status FROM git_files INNER JOIN
  (SELECT type, uuid, name, filename FROM all_items_view UNION ALL
   SELECT DISTINCT 'model_3d' AS type, '00000000-0000-0000-0000-000000000000' as uuid,
     '' as name, model_filename as filename FROM models)
  ON filename=git_filename\<close>
\<close>

record changed_item =
  ci_type :: string
  ci_uuid :: string
  ci_name :: string
  ci_filename :: string
  ci_status :: int

definition model_items :: "model list \<Rightarrow> item list" where
  "model_items ms =
     sql_distinct (map (\<lambda>m. \<lparr>item_type = ''model_3d'', item_uuid = nil_uuid,
                               item_name = '''', item_filename = model_filename m\<rparr>) ms)"

definition git_files_view :: "pool_db \<Rightarrow> changed_item list" where
  "git_files_view db =
     map (\<lambda>(g, i). \<lparr>ci_type = item_type i, ci_uuid = item_uuid i, ci_name = item_name i,
                     ci_filename = item_filename i, ci_status = git_status g\<rparr>)
       (inner_join (git_files db) (all_items_view db @ model_items (models db))
          (\<lambda>g i. item_filename i = git_filename g))"

text \<open>
  The query of the section "Non-items":
  \<^verbatim>\<open>SELECT git_filename FROM git_files LEFT JOIN all_items_view ON
  filename=git_filename WHERE filename is NULL\<close>
\<close>

definition non_items :: "pool_db \<Rightarrow> string list" where
  "non_items db =
     map (\<lambda>(g, i). git_filename g)
       (filter (\<lambda>(g, i). map_option item_filename i = None)
          (left_join (git_files db) (all_items_view db)
             (\<lambda>g i. item_filename i = git_filename g)))"

section \<open>Roots of the change\<close>

text \<open>
  The view \<open>top_parts\<close>:
  \<^verbatim>\<open>SELECT git_files_view.uuid AS part_uuid FROM git_files_view
  LEFT JOIN parts ON git_files_view.uuid = parts.uuid
  LEFT JOIN git_files_view AS gfv ON gfv.uuid = parts.base
  WHERE (gfv.uuid IS NULL OR parts.base = '00000000-0000-0000-0000-000000000000')
  AND git_files_view.type = 'part'\<close>
  When the first join finds no part, \<open>parts.base\<close> is \<open>NULL\<close>: the second join then
  finds nothing either, and \<open>parts.base = '0000...'\<close> is not true.
\<close>

definition top_parts :: "pool_db \<Rightarrow> string list" where
  "top_parts db =
     map (\<lambda>((c, p), gfv). ci_uuid c)
       (filter (\<lambda>((c, p), gfv).
                  (map_option ci_uuid gfv = None \<or> map_option part_base p = Some nil_uuid)
                  \<and> ci_type c = ''part'')
          (left_join
             (left_join (git_files_view db) (parts db) (\<lambda>c p. ci_uuid c = part_uuid p))
             (git_files_view db)
             (\<lambda>(c, p) gfv. map_option part_base p = Some (ci_uuid gfv))))"

section \<open>The forward closure\<close>

text \<open>
  The recursive table \<open>where_used(typex, uuidx, level, root)\<close> of the view
  \<open>parts_tree\<close>:
  \<^verbatim>\<open>SELECT 'part', part_uuid, 0, part_uuid from top_parts UNION
  SELECT dep_type, dep_uuid, level+1, root FROM dependencies, where_used
  WHERE dependencies.type = where_used.typex AND dependencies.uuid = where_used.uuidx\<close>
\<close>

record where_used =
  wu_typex :: string
  wu_uuidx :: string
  wu_level :: int
  wu_root :: string

definition where_used_initial :: "pool_db \<Rightarrow> where_used list" where
  "where_used_initial db =
     map (\<lambda>u. \<lparr>wu_typex = ''part'', wu_uuidx = u, wu_level = 0, wu_root = u\<rparr>) (top_parts db)"

definition where_used_step :: "pool_db \<Rightarrow> where_used \<Rightarrow> where_used list" where
  "where_used_step db w =
     map (\<lambda>(d, w). \<lparr>wu_typex = d_dep_type d, wu_uuidx = d_dep_uuid d,
                     wu_level = wu_level w + 1, wu_root = wu_root w\<rparr>)
       (inner_join (dependencies db) [w]
          (\<lambda>d w. d_type d = wu_typex w \<and> d_uuid d = wu_uuidx w))"

definition parts_where_used :: "pool_db \<Rightarrow> where_used list option" where
  "parts_where_used db = recursive_union (where_used_initial db) (where_used_step db)"

text \<open>
  The view \<open>parts_tree\<close> over that table:
  \<^verbatim>\<open>SELECT where_used.typex AS type, all_items_view.name, level,
  (CASE where_used.typex WHEN 'part' THEN 0 WHEN 'entity' THEN 1 WHEN 'unit' THEN 2
   WHEN 'package' THEN 4 WHEN 'padstack' THEN 6 ELSE -1 END) AS type_order,
  (SELECT COUNT(*) from git_files_view WHERE git_files_view.uuid = where_used.uuidx AND
   git_files_view.type = where_used.typex) AS in_pr,
  where_used.uuidx AS uuid, root
  FROM where_used LEFT JOIN all_items_view
  ON where_used.typex = all_items_view.type AND where_used.uuidx = all_items_view.uuid\<close>
\<close>

record tree_row =
  t_type :: string
  t_name :: "string option"
  t_level :: int
  t_type_order :: int
  t_in_pr :: int
  t_uuid :: string
  t_root :: string

definition type_order_of :: "string \<Rightarrow> int" where
  "type_order_of typex =
     (if typex = ''part'' then 0
      else if typex = ''entity'' then 1
      else if typex = ''unit'' then 2
      else if typex = ''package'' then 4
      else if typex = ''padstack'' then 6
      else - 1)"

definition in_pr_count :: "pool_db \<Rightarrow> string \<Rightarrow> string \<Rightarrow> int" where
  "in_pr_count db typex uuidx =
     int (length (filter (\<lambda>c. ci_uuid c = uuidx \<and> ci_type c = typex) (git_files_view db)))"

definition parts_tree_rows :: "pool_db \<Rightarrow> where_used list \<Rightarrow> tree_row list" where
  "parts_tree_rows db wu =
     map (\<lambda>(w, i). \<lparr>t_type = wu_typex w, t_name = map_option item_name i,
                     t_level = wu_level w, t_type_order = type_order_of (wu_typex w),
                     t_in_pr = in_pr_count db (wu_typex w) (wu_uuidx w),
                     t_uuid = wu_uuidx w, t_root = wu_root w\<rparr>)
       (left_join wu (all_items_view db)
          (\<lambda>w i. wu_typex w = item_type i \<and> wu_uuidx w = item_uuid i))"

definition parts_tree :: "pool_db \<Rightarrow> tree_row list option" where
  "parts_tree db = map_option (parts_tree_rows db) (parts_where_used db)"

section \<open>The tree of derived parts\<close>

text \<open>
  The view \<open>derived_parts_tree\<close>, first its recursive table \<open>where_used(uuidx, level)\<close>:
  \<^verbatim>\<open>SELECT part_uuid, 0 FROM top_parts UNION
  SELECT parts.uuid, level+1 FROM parts, where_used WHERE parts.base = where_used.uuidx\<close>
  then
  \<^verbatim>\<open>SELECT parts.MPN, level,
  (SELECT COUNT(*) from git_files_view WHERE git_files_view.uuid = where_used.uuidx AND
   git_files_view.type = 'part') AS in_pr, where_used.uuidx AS uuid
  FROM where_used LEFT JOIN parts ON where_used.uuidx = parts.uuid\<close>
\<close>

record derived_used =
  du_uuidx :: string
  du_level :: int

definition derived_initial :: "pool_db \<Rightarrow> derived_used list" where
  "derived_initial db = map (\<lambda>u. \<lparr>du_uuidx = u, du_level = 0\<rparr>) (top_parts db)"

definition derived_step :: "pool_db \<Rightarrow> derived_used \<Rightarrow> derived_used list" where
  "derived_step db w =
     map (\<lambda>(p, w). \<lparr>du_uuidx = part_uuid p, du_level = du_level w + 1\<rparr>)
       (inner_join (parts db) [w] (\<lambda>p w. part_base p = du_uuidx w))"

definition derived_where_used :: "pool_db \<Rightarrow> derived_used list option" where
  "derived_where_used db = recursive_union (derived_initial db) (derived_step db)"

record derived_row =
  dr_MPN :: "string option"
  dr_level :: int
  dr_in_pr :: int
  dr_uuid :: string

definition derived_parts_tree_rows :: "pool_db \<Rightarrow> derived_used list \<Rightarrow> derived_row list" where
  "derived_parts_tree_rows db wu =
     map (\<lambda>(w, p). \<lparr>dr_MPN = map_option part_MPN p, dr_level = du_level w,
                     dr_in_pr = in_pr_count db ''part'' (du_uuidx w),
                     dr_uuid = du_uuidx w\<rparr>)
       (left_join wu (parts db) (\<lambda>w p. du_uuidx w = part_uuid p))"

definition derived_parts_tree :: "pool_db \<Rightarrow> derived_row list option" where
  "derived_parts_tree db = map_option (derived_parts_tree_rows db) (derived_where_used db)"

section \<open>The tree that is printed\<close>

text \<open>
  The view \<open>all_parts_tree\<close>:
  \<^verbatim>\<open>SELECT * FROM (SELECT * FROM parts_tree
  UNION SELECT 'model_3d', model_filename, level+1, 5, in_pr, '', root FROM parts_tree
   INNER JOIN models ON (models.package_uuid = uuid and type = 'package')
  UNION SELECT 'symbol', symbols.name, level+1, 3, in_pr, symbols.uuid, root FROM parts_tree
   INNER JOIN symbols ON (symbols.unit = parts_tree.uuid AND type = 'unit'))
  ORDER BY root, type_order, level\<close>
  Text columns compare bytewise (the collation \<open>BINARY\<close>), which is the lexicographic
  order of \<^typ>\<open>string\<close>. SQL leaves the order of rows with equal sort keys to the
  engine; the model sorts stably, so such rows stay in the order of the inner query.
\<close>

definition model_rows :: "pool_db \<Rightarrow> tree_row list \<Rightarrow> tree_row list" where
  "model_rows db pt =
     map (\<lambda>(r, m). \<lparr>t_type = ''model_3d'', t_name = Some (model_filename m),
                     t_level = t_level r + 1, t_type_order = 5, t_in_pr = t_in_pr r,
                     t_uuid = '''', t_root = t_root r\<rparr>)
       (inner_join pt (models db)
          (\<lambda>r m. model_package_uuid m = t_uuid r \<and> t_type r = ''package''))"

definition symbol_rows :: "pool_db \<Rightarrow> tree_row list \<Rightarrow> tree_row list" where
  "symbol_rows db pt =
     map (\<lambda>(r, s). \<lparr>t_type = ''symbol'', t_name = Some (symbol_name s),
                     t_level = t_level r + 1, t_type_order = 3, t_in_pr = t_in_pr r,
                     t_uuid = symbol_uuid s, t_root = t_root r\<rparr>)
       (inner_join pt (symbols db)
          (\<lambda>r s. symbol_unit s = t_uuid r \<and> t_type r = ''unit''))"

definition order_key :: "tree_row \<Rightarrow> string \<times> int \<times> int" where
  "order_key r = (t_root r, t_type_order r, t_level r)"

definition all_parts_tree_rows :: "pool_db \<Rightarrow> tree_row list \<Rightarrow> tree_row list" where
  "all_parts_tree_rows db pt =
     sort_key order_key (sql_distinct (pt @ model_rows db pt @ symbol_rows db pt))"

definition all_parts_tree :: "pool_db \<Rightarrow> tree_row list option" where
  "all_parts_tree db = map_option (all_parts_tree_rows db) (parts_tree db)"

text \<open>
  The report prints a row in bold when \<open>from_pr\<close>, the column \<open>in_pr\<close> read as a C++
  \<open>bool\<close>, is true.
\<close>

definition from_pr :: "tree_row \<Rightarrow> bool" where
  "from_pr r = (t_in_pr r \<noteq> 0)"

text \<open>The columns of a row of the tree other than \<open>in_pr\<close>.\<close>

definition without_in_pr ::
  "tree_row \<Rightarrow> string \<times> string option \<times> int \<times> int \<times> string \<times> string" where
  "without_in_pr r = (t_type r, t_name r, t_level r, t_type_order r, t_uuid r, t_root r)"

section \<open>Paths in the tables\<close>

text \<open>
  \<open>dep_path db n a b\<close>: \<open>n\<close> rows of \<open>dependencies\<close> lead from the item \<open>a\<close> to the
  item \<open>b\<close>, items given as \<open>(type, uuid)\<close>.
\<close>

fun dep_path :: "pool_db \<Rightarrow> nat \<Rightarrow> string \<times> string \<Rightarrow> string \<times> string \<Rightarrow> bool" where
  "dep_path db 0 a b = (a = b)"
| "dep_path db (Suc n) a b =
     (\<exists>d\<in>set (dependencies db). (d_dep_type d, d_dep_uuid d) = b
         \<and> dep_path db n a (d_type d, d_uuid d))"

text \<open>
  \<open>derived_path db n a b\<close>: the part \<open>b\<close> derives from the part \<open>a\<close> in \<open>n\<close> steps of
  the column \<open>base\<close>.
\<close>

fun derived_path :: "pool_db \<Rightarrow> nat \<Rightarrow> string \<Rightarrow> string \<Rightarrow> bool" where
  "derived_path db 0 a b = (a = b)"
| "derived_path db (Suc n) a b =
     (\<exists>p\<in>set (parts db). part_uuid p = b \<and> derived_path db n a (part_base p))"

text \<open>What a recursive table can ever hold: the initial rows and all that follow from them.\<close>

inductive_set cte_rows :: "'a list \<Rightarrow> ('a \<Rightarrow> 'a list) \<Rightarrow> 'a set"
  for initial :: "'a list" and step :: "'a \<Rightarrow> 'a list" where
  initial: "r \<in> set initial \<Longrightarrow> r \<in> cte_rows initial step"
| step: "r \<in> cte_rows initial step \<Longrightarrow> r' \<in> set (step r) \<Longrightarrow> r' \<in> cte_rows initial step"

text \<open>
  The state of the loop behind a recursive table: \<open>seen\<close> has no row twice, holds the
  queue and the initial rows, holds only rows that follow from the initial ones, and
  holds what follows in one step from each of its rows that left the queue.
\<close>

definition cte_inv :: "'a list \<Rightarrow> ('a \<Rightarrow> 'a list) \<Rightarrow> 'a list \<Rightarrow> 'a list \<Rightarrow> bool" where
  "cte_inv initial step queue seen \<longleftrightarrow>
     distinct seen \<and> set queue \<subseteq> set seen \<and> set initial \<subseteq> set seen
     \<and> set seen \<subseteq> cte_rows initial step
     \<and> (\<forall>r\<in>set seen - set queue. set (step r) \<subseteq> set seen)"

section \<open>Natural order of names\<close>

text \<open>
  Modelled from the spec: the comparison \<open>strcmp_natural\<close> is declared in
  \<open>util/util.hpp\<close>, which is not among these sources. The specification says of it that
  "embedded numbers compare numerically rather than lexicographically (e.g., "R2" before
  "R10")". So a name is cut into its maximal runs of digits, each read as a number, and
  its other characters; names compare as the lists of these pieces, piece by piece, a
  number before a character.
\<close>

datatype chunk = Number nat | Letter char

definition is_digit :: "char \<Rightarrow> bool" where
  "is_digit c \<longleftrightarrow> CHR ''0'' \<le> c \<and> c \<le> CHR ''9''"

definition digit_value :: "char \<Rightarrow> nat" where
  "digit_value c = of_char c - of_char (CHR ''0'')"

fun chunks :: "nat option \<Rightarrow> string \<Rightarrow> chunk list" where
  "chunks None [] = []"
| "chunks (Some n) [] = [Number n]"
| "chunks None (c # cs) =
     (if is_digit c then chunks (Some (digit_value c)) cs else Letter c # chunks None cs)"
| "chunks (Some n) (c # cs) =
     (if is_digit c then chunks (Some (10 * n + digit_value c)) cs
      else Number n # Letter c # chunks None cs)"

fun chunk_less :: "chunk \<Rightarrow> chunk \<Rightarrow> bool" where
  "chunk_less (Number a) (Number b) = (a < b)"
| "chunk_less (Number a) (Letter d) = True"
| "chunk_less (Letter c) (Number b) = False"
| "chunk_less (Letter c) (Letter d) = (c < d)"

fun chunks_less :: "chunk list \<Rightarrow> chunk list \<Rightarrow> bool" where
  "chunks_less [] [] = False"
| "chunks_less [] (b # bs) = True"
| "chunks_less (a # as) [] = False"
| "chunks_less (a # as) (b # bs) = (chunk_less a b \<or> (a = b \<and> chunks_less as bs))"

definition natural_less :: "string \<Rightarrow> string \<Rightarrow> bool" where
  "natural_less a b = chunks_less (chunks None a) (chunks None b)"

section \<open>The recording canvas\<close>

text \<open>
  \<open>canvas_cairo2.cpp\<close> draws through a Cairo context onto a recording surface. Of Cairo
  the model keeps what these calls touch: the scale of the transformation matrix (the
  only change the canvas makes to it), the colour, the cap, the line width, the path
  under construction, and the strokes recorded so far. A C++ \<open>double\<close> is a
  \<^typ>\<open>real\<close> here, so rounding is not modelled. A point of the path is stored in device
  coordinates, as Cairo does: the user coordinates scaled by the matrix of the moment.
\<close>

datatype LineCap = LINE_CAP_BUTT | LINE_CAP_ROUND | LINE_CAP_SQUARE

record stroke =
  stroke_subpaths :: "(real \<times> real) list list"
  stroke_line_width :: real
  stroke_scale :: "real \<times> real"
  stroke_line_cap :: LineCap

record cairo_context =
  ctm_sx :: real
  ctm_sy :: real
  source_rgb :: "real \<times> real \<times> real"
  line_cap :: LineCap
  line_width :: real
  path :: "(real \<times> real) list list"
  recording :: "stroke list"

text \<open>\<open>Cairo::Context::create\<close>: identity matrix, black, butt caps, line width 2, no path.\<close>

definition Context_create :: cairo_context where
  "Context_create = \<lparr>ctm_sx = 1, ctm_sy = 1, source_rgb = (0, 0, 0), line_cap = LINE_CAP_BUTT,
     line_width = 2, path = [], recording = []\<rparr>"

definition scale :: "real \<Rightarrow> real \<Rightarrow> cairo_context \<Rightarrow> cairo_context" where
  "scale sx sy c = c\<lparr>ctm_sx := ctm_sx c * sx, ctm_sy := ctm_sy c * sy\<rparr>"

definition set_source_rgb :: "real \<Rightarrow> real \<Rightarrow> real \<Rightarrow> cairo_context \<Rightarrow> cairo_context" where
  "set_source_rgb r g b c = c\<lparr>source_rgb := (r, g, b)\<rparr>"

definition set_line_cap :: "LineCap \<Rightarrow> cairo_context \<Rightarrow> cairo_context" where
  "set_line_cap cap c = c\<lparr>line_cap := cap\<rparr>"

definition set_line_width :: "real \<Rightarrow> cairo_context \<Rightarrow> cairo_context" where
  "set_line_width w c = c\<lparr>line_width := w\<rparr>"

definition to_device :: "cairo_context \<Rightarrow> real \<Rightarrow> real \<Rightarrow> real \<times> real" where
  "to_device c x y = (ctm_sx c * x, ctm_sy c * y)"

text \<open>\<open>move_to\<close> begins a new sub-path at the point.\<close>

definition move_to :: "real \<Rightarrow> real \<Rightarrow> cairo_context \<Rightarrow> cairo_context" where
  "move_to x y c = c\<lparr>path := path c @ [[to_device c x y]]\<rparr>"

text \<open>\<open>line_to\<close> extends the current sub-path; without a current point it acts as \<open>move_to\<close>.\<close>

definition line_to :: "real \<Rightarrow> real \<Rightarrow> cairo_context \<Rightarrow> cairo_context" where
  "line_to x y c =
     (if path c = [] then move_to x y c
      else c\<lparr>path := butlast (path c) @ [last (path c) @ [to_device c x y]]\<rparr>)"

text \<open>\<open>stroke\<close> records the path with the pen of the moment and clears the path.\<close>

definition stroke :: "cairo_context \<Rightarrow> cairo_context" where
  "stroke c =
     c\<lparr>recording := recording c @
          [\<lparr>stroke_subpaths = path c, stroke_line_width = line_width c,
            stroke_scale = (ctm_sx c, ctm_sy c), stroke_line_cap = line_cap c\<rparr>],
       path := []\<rparr>"

text \<open>
  \<open>Coordi\<close> is a pair of \<open>int64_t\<close>. The canvas: of the base class \<open>Canvas\<close>, which is
  not among these sources, the members used here are \<open>img_mode\<close> and \<open>transform\<close>; the
  placement \<open>transform\<close> enters as the map \<open>transform.transform\<close> that it applies to a
  coordinate.
\<close>

record Coordi =
  coord_x :: "64 word"
  coord_y :: "64 word"

record CanvasCairo2 =
  img_mode :: bool
  transform :: "Coordi \<Rightarrow> Coordi"
  cr :: cairo_context

text \<open>
  The constructor:
  \<^verbatim>\<open>img_mode = true;
  cr->scale(2e-5, -2e-5);
  cr->set_source_rgb(0, 0, 0);
  cr->set_line_cap(Cairo::LineCap::LINE_CAP_ROUND);\<close>
  A default-constructed placement maps every coordinate to itself.
\<close>

definition CanvasCairo2_new :: CanvasCairo2 where
  "CanvasCairo2_new =
     \<lparr>img_mode = True, transform = (\<lambda>p. p),
      cr = set_line_cap LINE_CAP_ROUND
             (set_source_rgb 0 0 0 (scale (2 / 100000) (- (2 / 100000)) Context_create))\<rparr>"

text \<open>
  \<^verbatim>\<open>void CanvasCairo2::img_line(const Coordi &p0, const Coordi &p1, const uint64_t width,
                             int layer, bool tr)
  {
      Coordi q0 = p0;
      Coordi q1 = p1;
      if (tr) {
          q0 = transform.transform(p0);
          q1 = transform.transform(p1);
      }
      cr->move_to(q0.x, q0.y);
      cr->line_to(q1.x, q1.y);
      cr->set_line_width(0.1e6);
      cr->stroke();
  }\<close>
\<close>

definition img_line ::
  "CanvasCairo2 \<Rightarrow> Coordi \<Rightarrow> Coordi \<Rightarrow> 64 word \<Rightarrow> 32 word \<Rightarrow> bool \<Rightarrow> CanvasCairo2" where
  "img_line ca p0 p1 width layer tr =
     (let q0 = (if tr then transform ca p0 else p0);
          q1 = (if tr then transform ca p1 else p1)
      in ca\<lparr>cr :=
           stroke
             (set_line_width 100000
                (line_to (real_of_int (sint (coord_x q1))) (real_of_int (sint (coord_y q1)))
                   (move_to (real_of_int (sint (coord_x q0))) (real_of_int (sint (coord_y q0)))
                      (cr ca))))\<rparr>)"

section \<open>Example pools\<close>

text \<open>
  A small pool. The part \<open>P\<close> has no base and uses the entity \<open>E\<close> and the package
  \<open>K\<close>; \<open>E\<close> uses the unit \<open>U\<close>, which has the symbol \<open>S\<close>; \<open>K\<close> has the 3D model
  \<open>3d/K.step\<close>; the part \<open>Q\<close> derives from \<open>P\<close>. The diff touches the files of \<open>P\<close>,
  of \<open>U\<close> and of the 3D model, and a readme.
\<close>

definition pool1 :: pool_db where
  "pool1 = \<lparr>
     git_files = [
       \<lparr>git_filename = ''parts/P.json'', git_status = 3\<rparr>,
       \<lparr>git_filename = ''units/U.json'', git_status = 3\<rparr>,
       \<lparr>git_filename = ''README.md'', git_status = 1\<rparr>,
       \<lparr>git_filename = ''3d/K.step'', git_status = 1\<rparr>],
     all_items_view = [
       \<lparr>item_type = ''part'', item_uuid = ''uP'', item_name = ''P'', item_filename = ''parts/P.json''\<rparr>,
       \<lparr>item_type = ''part'', item_uuid = ''uQ'', item_name = ''Q'', item_filename = ''parts/Q.json''\<rparr>,
       \<lparr>item_type = ''entity'', item_uuid = ''uE'', item_name = ''E'', item_filename = ''entities/E.json''\<rparr>,
       \<lparr>item_type = ''unit'', item_uuid = ''uU'', item_name = ''U'', item_filename = ''units/U.json''\<rparr>,
       \<lparr>item_type = ''symbol'', item_uuid = ''uS'', item_name = ''S'', item_filename = ''symbols/S.json''\<rparr>,
       \<lparr>item_type = ''package'', item_uuid = ''uK'', item_name = ''K'', item_filename = ''packages/K.json''\<rparr>],
     models = [\<lparr>model_package_uuid = ''uK'', model_filename = ''3d/K.step''\<rparr>],
     parts = [
       \<lparr>part_uuid = ''uP'', part_base = nil_uuid, part_MPN = ''P''\<rparr>,
       \<lparr>part_uuid = ''uQ'', part_base = ''uP'', part_MPN = ''Q''\<rparr>],
     dependencies = [
       \<lparr>d_type = ''part'', d_uuid = ''uP'', d_dep_type = ''entity'', d_dep_uuid = ''uE''\<rparr>,
       \<lparr>d_type = ''part'', d_uuid = ''uP'', d_dep_type = ''package'', d_dep_uuid = ''uK''\<rparr>,
       \<lparr>d_type = ''entity'', d_uuid = ''uE'', d_dep_type = ''unit'', d_dep_uuid = ''uU''\<rparr>],
     symbols = [\<lparr>symbol_uuid = ''uS'', symbol_unit = ''uU'', symbol_name = ''S''\<rparr>]\<rparr>"

text \<open>The same pool with another diff: the symbol's file instead of the 3D model's.\<close>

definition pool1_symbol_changed :: pool_db where
  "pool1_symbol_changed = pool1\<lparr>git_files := [
       \<lparr>git_filename = ''parts/P.json'', git_status = 3\<rparr>,
       \<lparr>git_filename = ''units/U.json'', git_status = 3\<rparr>,
       \<lparr>git_filename = ''README.md'', git_status = 1\<rparr>,
       \<lparr>git_filename = ''symbols/S.json'', git_status = 3\<rparr>]\<rparr>"

text \<open>
  A pool with a derived part. The part \<open>D\<close> derives from \<open>B\<close>, and both use the entity
  \<open>E\<close> with its units \<open>R10\<close> and \<open>R2\<close>; the table of dependencies also records that
  \<open>D\<close> uses its base. Only the file of \<open>D\<close> is in the diff.
\<close>

definition pool2 :: pool_db where
  "pool2 = \<lparr>
     git_files = [\<lparr>git_filename = ''parts/D.json'', git_status = 3\<rparr>],
     all_items_view = [
       \<lparr>item_type = ''part'', item_uuid = ''uD'', item_name = ''D'', item_filename = ''parts/D.json''\<rparr>,
       \<lparr>item_type = ''part'', item_uuid = ''uB'', item_name = ''B'', item_filename = ''parts/B.json''\<rparr>,
       \<lparr>item_type = ''entity'', item_uuid = ''uE'', item_name = ''E'', item_filename = ''entities/E.json''\<rparr>,
       \<lparr>item_type = ''unit'', item_uuid = ''u1'', item_name = ''R10'', item_filename = ''units/R10.json''\<rparr>,
       \<lparr>item_type = ''unit'', item_uuid = ''u2'', item_name = ''R2'', item_filename = ''units/R2.json''\<rparr>],
     models = [],
     parts = [
       \<lparr>part_uuid = ''uD'', part_base = ''uB'', part_MPN = ''D''\<rparr>,
       \<lparr>part_uuid = ''uB'', part_base = nil_uuid, part_MPN = ''B''\<rparr>],
     dependencies = [
       \<lparr>d_type = ''part'', d_uuid = ''uD'', d_dep_type = ''part'', d_dep_uuid = ''uB''\<rparr>,
       \<lparr>d_type = ''part'', d_uuid = ''uD'', d_dep_type = ''entity'', d_dep_uuid = ''uE''\<rparr>,
       \<lparr>d_type = ''part'', d_uuid = ''uB'', d_dep_type = ''entity'', d_dep_uuid = ''uE''\<rparr>,
       \<lparr>d_type = ''entity'', d_uuid = ''uE'', d_dep_type = ''unit'', d_dep_uuid = ''u1''\<rparr>,
       \<lparr>d_type = ''entity'', d_uuid = ''uE'', d_dep_type = ''unit'', d_dep_uuid = ''u2''\<rparr>],
     symbols = []\<rparr>"

text \<open>
  A corrupt pool: the parts \<open>A\<close> and \<open>B\<close> each name the other as their base. Only the
  file of \<open>A\<close> is in the diff.
\<close>

definition pool3 :: pool_db where
  "pool3 = \<lparr>
     git_files = [\<lparr>git_filename = ''parts/A.json'', git_status = 3\<rparr>],
     all_items_view = [
       \<lparr>item_type = ''part'', item_uuid = ''uA'', item_name = ''A'', item_filename = ''parts/A.json''\<rparr>,
       \<lparr>item_type = ''part'', item_uuid = ''uB'', item_name = ''B'', item_filename = ''parts/B.json''\<rparr>],
     models = [],
     parts = [
       \<lparr>part_uuid = ''uA'', part_base = ''uB'', part_MPN = ''A''\<rparr>,
       \<lparr>part_uuid = ''uB'', part_base = ''uA'', part_MPN = ''B''\<rparr>],
     dependencies = [],
     symbols = []\<rparr>"

text \<open>
  A pool in which a unit carries the uuid of a part: the part \<open>D\<close> derives from the part
  \<open>B\<close>, and the unit \<open>X\<close> has the same uuid as \<open>B\<close>. The diff has the files of \<open>D\<close> and
  of \<open>X\<close>, not the file of \<open>B\<close>.
\<close>

definition pool4 :: pool_db where
  "pool4 = \<lparr>
     git_files = [
       \<lparr>git_filename = ''parts/D.json'', git_status = 3\<rparr>,
       \<lparr>git_filename = ''units/X.json'', git_status = 3\<rparr>],
     all_items_view = [
       \<lparr>item_type = ''part'', item_uuid = ''uD'', item_name = ''D'', item_filename = ''parts/D.json''\<rparr>,
       \<lparr>item_type = ''part'', item_uuid = ''uB'', item_name = ''B'', item_filename = ''parts/B.json''\<rparr>,
       \<lparr>item_type = ''unit'', item_uuid = ''uB'', item_name = ''X'', item_filename = ''units/X.json''\<rparr>],
     models = [],
     parts = [
       \<lparr>part_uuid = ''uD'', part_base = ''uB'', part_MPN = ''D''\<rparr>,
       \<lparr>part_uuid = ''uB'', part_base = nil_uuid, part_MPN = ''B''\<rparr>],
     dependencies = [],
     symbols = []\<rparr>"

text \<open>
  A corrupt pool with a cycle of dependencies: the changed part \<open>P\<close> uses the entity
  \<open>E\<close>, and the table says that \<open>E\<close> uses itself.
\<close>

definition pool5 :: pool_db where
  "pool5 = \<lparr>
     git_files = [\<lparr>git_filename = ''parts/P.json'', git_status = 3\<rparr>],
     all_items_view = [
       \<lparr>item_type = ''part'', item_uuid = ''uP'', item_name = ''P'', item_filename = ''parts/P.json''\<rparr>,
       \<lparr>item_type = ''entity'', item_uuid = ''uE'', item_name = ''E'', item_filename = ''entities/E.json''\<rparr>],
     models = [],
     parts = [\<lparr>part_uuid = ''uP'', part_base = nil_uuid, part_MPN = ''P''\<rparr>],
     dependencies = [
       \<lparr>d_type = ''part'', d_uuid = ''uP'', d_dep_type = ''entity'', d_dep_uuid = ''uE''\<rparr>,
       \<lparr>d_type = ''entity'', d_uuid = ''uE'', d_dep_type = ''entity'', d_dep_uuid = ''uE''\<rparr>],
     symbols = []\<rparr>"

section \<open>Facts about the SQL operators\<close>

lemma set_inner_join:
  "set (inner_join xs ys on) = {(x, y). x \<in> set xs \<and> y \<in> set ys \<and> on x y}"
  by (auto simp: inner_join_def)

lemma set_left_join:
  "set (left_join xs ys on) =
     {(x, Some y) | x y. x \<in> set xs \<and> y \<in> set ys \<and> on x y}
     \<union> {(x, None) | x. x \<in> set xs \<and> (\<forall>y\<in>set ys. \<not> on x y)}"
  by (auto simp: left_join_def filter_empty_conv split: if_splits)

lemma set_enqueue: "set (enqueue seen xs) = set xs - set seen"
  by (induction xs arbitrary: seen) auto

lemma distinct_enqueue: "distinct (enqueue seen xs)"
  by (induction xs arbitrary: seen) (auto simp: set_enqueue)

lemma set_sql_distinct: "set (sql_distinct xs) = set xs"
  by (simp add: sql_distinct_def set_enqueue)

lemma distinct_sql_distinct: "distinct (sql_distinct xs)"
  by (simp add: sql_distinct_def distinct_enqueue)

section \<open>The recursive tables are the reachable rows\<close>

lemma cte_loop_Nil: "cte_loop step [] seen = Some seen"
  by (subst cte_loop.simps) simp

lemma cte_loop_Cons:
  "cte_loop step (r # q) seen
     = cte_loop step (q @ enqueue seen (step r)) (seen @ enqueue seen (step r))"
  by (subst cte_loop.simps) simp

lemma cte_inv_step:
  assumes "cte_inv initial step (r # q) seen"
  shows "cte_inv initial step (q @ enqueue seen (step r)) (seen @ enqueue seen (step r))"
proof -
  have r: "r \<in> cte_rows initial step" using assms by (auto simp: cte_inv_def)
  then have "set (step r) \<subseteq> cte_rows initial step" by (auto intro: cte_rows.step)
  with assms show ?thesis
    unfolding cte_inv_def by (auto simp: set_enqueue distinct_enqueue)
qed

lemma cte_inv_final:
  assumes "cte_inv initial step [] seen"
  shows "set seen = cte_rows initial step"
proof
  show "set seen \<subseteq> cte_rows initial step" using assms by (simp add: cte_inv_def)
  show "cte_rows initial step \<subseteq> set seen"
  proof
    fix r assume "r \<in> cte_rows initial step"
    then show "r \<in> set seen"
      using assms by induction (auto simp: cte_inv_def)
  qed
qed

lemma cte_loop_result:
  assumes "cte_loop step queue seen = Some rows"
  shows "cte_inv initial step queue seen \<Longrightarrow> distinct rows \<and> set rows = cte_rows initial step"
proof (induction rule: cte_loop.raw_induct [OF _ assms])
  case (1 loop step queue seen rows)
  show ?case
  proof (cases queue)
    case Nil
    with 1 have "rows = seen" by simp
    moreover have "distinct seen" using "1.prems" by (simp add: cte_inv_def)
    moreover have "set seen = cte_rows initial step"
      using "1.prems" Nil by (simp add: cte_inv_final)
    ultimately show ?thesis by simp
  next
    case (Cons r q)
    with 1 have "loop step (q @ enqueue seen (step r)) (seen @ enqueue seen (step r)) = Some rows"
      by simp
    moreover have "cte_inv initial step (q @ enqueue seen (step r)) (seen @ enqueue seen (step r))"
      using "1.prems" Cons by (simp add: cte_inv_step)
    ultimately show ?thesis by (rule "1.IH")
  qed
qed

lemma cte_inv_initial: "cte_inv initial step (sql_distinct initial) (sql_distinct initial)"
  by (auto simp: cte_inv_def set_sql_distinct distinct_sql_distinct intro: cte_rows.initial)

lemma recursive_union_result:
  assumes "recursive_union initial step = Some rows"
  shows "distinct rows \<and> set rows = cte_rows initial step"
  using assms cte_loop_result [OF _ cte_inv_initial] unfolding recursive_union_def by blast

lemma cte_loop_terminates:
  assumes "finite R" "\<And>r. r \<in> R \<Longrightarrow> set (step r) \<subseteq> R"
  shows "distinct seen \<Longrightarrow> set seen \<subseteq> R \<Longrightarrow> set queue \<subseteq> set seen
     \<Longrightarrow> card R - length seen + length queue = n
     \<Longrightarrow> \<exists>rows. cte_loop step queue seen = Some rows"
proof (induction n arbitrary: queue seen)
  case 0
  then show ?case by (simp add: cte_loop_Nil)
next
  case (Suc n)
  show ?case
  proof (cases queue)
    case Nil
    then show ?thesis by (simp add: cte_loop_Nil)
  next
    case (Cons r q)
    let ?new = "enqueue seen (step r)"
    have rR: "r \<in> R" using Suc.prems Cons by auto
    have d: "distinct (seen @ ?new)" using Suc.prems by (auto simp: distinct_enqueue set_enqueue)
    have s: "set (seen @ ?new) \<subseteq> R" using Suc.prems assms(2)[OF rR] by (auto simp: set_enqueue)
    have "length (seen @ ?new) = card (set (seen @ ?new))" by (rule distinct_card [OF d, symmetric])
    also have "\<dots> \<le> card R" using s assms(1) by (rule card_mono[rotated])
    finally have le: "length seen + length ?new \<le> card R" by simp
    have "card R - length (seen @ ?new) + length (q @ ?new) = n"
      using Suc.prems(4) Cons le by simp
    moreover have "set (q @ ?new) \<subseteq> set (seen @ ?new)" using Suc.prems Cons by auto
    ultimately have "\<exists>rows. cte_loop step (q @ ?new) (seen @ ?new) = Some rows"
      using Suc.IH d s by blast
    then show ?thesis using Cons by (simp add: cte_loop_Cons)
  qed
qed

lemma recursive_union_terminates:
  assumes "finite (cte_rows initial step)"
  shows "\<exists>rows. recursive_union initial step = Some rows"
  unfolding recursive_union_def
  by (rule cte_loop_terminates[OF assms, where n = "card (cte_rows initial step) - length (sql_distinct initial) + length (sql_distinct initial)"])
     (auto simp: distinct_sql_distinct set_sql_distinct intro: cte_rows.intros)

lemma recursive_union_diverges:
  assumes "infinite (cte_rows initial step)"
  shows "recursive_union initial step = None"
proof (cases "recursive_union initial step")
  case None then show ?thesis .
next
  case (Some rows)
  then have "set rows = cte_rows initial step" by (simp add: recursive_union_result)
  then show ?thesis using assms by (metis List.finite_set)
qed

section \<open>The rows of \<open>where_used\<close> are the paths from the roots\<close>

lemma where_used_step_iff:
  "w' \<in> set (where_used_step db w) \<longleftrightarrow>
     (\<exists>d\<in>set (dependencies db). d_type d = wu_typex w \<and> d_uuid d = wu_uuidx w
        \<and> w' = \<lparr>wu_typex = d_dep_type d, wu_uuidx = d_dep_uuid d,
                 wu_level = wu_level w + 1, wu_root = wu_root w\<rparr>)"
  unfolding where_used_step_def set_map set_inner_join by force

lemma where_used_rows_sound:
  assumes "w \<in> cte_rows (where_used_initial db) (where_used_step db)"
  shows "wu_root w \<in> set (top_parts db)
     \<and> (\<exists>n. wu_level w = int n \<and> dep_path db n (''part'', wu_root w) (wu_typex w, wu_uuidx w))"
  using assms
proof (induction rule: cte_rows.induct)
  case (initial r)
  then have "wu_root r \<in> set (top_parts db)" "wu_level r = int 0"
    "dep_path db 0 (''part'', wu_root r) (wu_typex r, wu_uuidx r)"
    by (auto simp: where_used_initial_def)
  then show ?case by blast
next
  case (step r r')
  then obtain n where n: "wu_level r = int n"
    "dep_path db n (''part'', wu_root r) (wu_typex r, wu_uuidx r)" by blast
  from step.hyps(2) obtain d where d: "d \<in> set (dependencies db)"
    "d_type d = wu_typex r" "d_uuid d = wu_uuidx r"
    "r' = \<lparr>wu_typex = d_dep_type d, wu_uuidx = d_dep_uuid d,
            wu_level = wu_level r + 1, wu_root = wu_root r\<rparr>"
    unfolding where_used_step_iff by blast
  have "wu_level r' = int (Suc n)" using d n by simp
  moreover have "dep_path db (Suc n) (''part'', wu_root r') (wu_typex r', wu_uuidx r')"
    using d n by auto
  moreover have "wu_root r' \<in> set (top_parts db)" using step.IH d(4) by simp
  ultimately show ?case by blast
qed

lemma where_used_rows_complete:
  "wu_root w \<in> set (top_parts db) \<Longrightarrow> wu_level w = int n
    \<Longrightarrow> dep_path db n (''part'', wu_root w) (wu_typex w, wu_uuidx w)
    \<Longrightarrow> w \<in> cte_rows (where_used_initial db) (where_used_step db)"
proof (induction n arbitrary: w)
  case 0
  then have "w = \<lparr>wu_typex = ''part'', wu_uuidx = wu_root w, wu_level = 0, wu_root = wu_root w\<rparr>"
    by simp
  then have "w \<in> set (where_used_initial db)"
    using 0(1) unfolding where_used_initial_def set_map by blast
  then show ?case by (rule cte_rows.initial)
next
  case (Suc n)
  then obtain d where d: "d \<in> set (dependencies db)" "d_dep_type d = wu_typex w"
    "d_dep_uuid d = wu_uuidx w" "dep_path db n (''part'', wu_root w) (d_type d, d_uuid d)"
    by auto
  let ?r = "\<lparr>wu_typex = d_type d, wu_uuidx = d_uuid d, wu_level = int n, wu_root = wu_root w\<rparr>"
  have "?r \<in> cte_rows (where_used_initial db) (where_used_step db)"
    using Suc.prems(1) d(4) by (intro Suc.IH) simp_all
  moreover have "w \<in> set (where_used_step db ?r)"
    unfolding where_used_step_iff using d Suc.prems(2) by (intro bexI[of _ d]) auto
  ultimately show ?case by (rule cte_rows.step)
qed

lemma where_used_rows:
  "w \<in> cte_rows (where_used_initial db) (where_used_step db) \<longleftrightarrow>
     wu_root w \<in> set (top_parts db)
     \<and> (\<exists>n. wu_level w = int n \<and> dep_path db n (''part'', wu_root w) (wu_typex w, wu_uuidx w))"
  using where_used_rows_sound where_used_rows_complete by blast

lemma derived_step_iff:
  "w' \<in> set (derived_step db w) \<longleftrightarrow>
     (\<exists>p\<in>set (parts db). part_base p = du_uuidx w
        \<and> w' = \<lparr>du_uuidx = part_uuid p, du_level = du_level w + 1\<rparr>)"
  unfolding derived_step_def set_map set_inner_join by force

lemma derived_rows_sound:
  assumes "w \<in> cte_rows (derived_initial db) (derived_step db)"
  shows "\<exists>n. \<exists>r\<in>set (top_parts db). du_level w = int n \<and> derived_path db n r (du_uuidx w)"
  using assms
proof (induction rule: cte_rows.induct)
  case (initial r)
  then have "du_uuidx r \<in> set (top_parts db)" "du_level r = int 0"
    "derived_path db 0 (du_uuidx r) (du_uuidx r)"
    by (auto simp: derived_initial_def)
  then show ?case by blast
next
  case (step r r')
  then obtain n t where n: "t \<in> set (top_parts db)" "du_level r = int n"
    "derived_path db n t (du_uuidx r)" by blast
  from step.hyps(2) obtain p where p: "p \<in> set (parts db)" "part_base p = du_uuidx r"
    "r' = \<lparr>du_uuidx = part_uuid p, du_level = du_level r + 1\<rparr>"
    unfolding derived_step_iff by blast
  have "du_level r' = int (Suc n)" using p n by simp
  moreover have "derived_path db (Suc n) t (du_uuidx r')"
    using p n by auto
  ultimately show ?case using n(1) by blast
qed

lemma derived_rows_complete:
  "t \<in> set (top_parts db) \<Longrightarrow> du_level w = int n \<Longrightarrow> derived_path db n t (du_uuidx w)
    \<Longrightarrow> w \<in> cte_rows (derived_initial db) (derived_step db)"
proof (induction n arbitrary: w)
  case 0
  then have "w = \<lparr>du_uuidx = t, du_level = 0\<rparr>" by simp
  then have "w \<in> set (derived_initial db)"
    using 0(1) unfolding derived_initial_def set_map by blast
  then show ?case by (rule cte_rows.initial)
next
  case (Suc n)
  then obtain p where p: "p \<in> set (parts db)" "part_uuid p = du_uuidx w"
    "derived_path db n t (part_base p)"
    by auto
  let ?r = "\<lparr>du_uuidx = part_base p, du_level = int n\<rparr>"
  have "?r \<in> cte_rows (derived_initial db) (derived_step db)"
    using Suc.prems(1) p(3) by (intro Suc.IH) simp_all
  moreover have "w \<in> set (derived_step db ?r)"
    unfolding derived_step_iff using p Suc.prems(2) by (intro bexI[of _ p]) auto
  ultimately show ?case by (rule cte_rows.step)
qed

lemma derived_rows:
  "w \<in> cte_rows (derived_initial db) (derived_step db) \<longleftrightarrow>
     (\<exists>n. \<exists>r\<in>set (top_parts db). du_level w = int n \<and> derived_path db n r (du_uuidx w))"
  using derived_rows_sound derived_rows_complete by blast

text \<open>
  When the recursive table of \<open>parts_tree\<close> is finished: exactly when the paths of
  dependencies that start at a root have bounded length.
\<close>

lemma dep_path_prefix: "dep_path db (n + k) a b \<Longrightarrow> \<exists>c. dep_path db n a c"
proof (induction k arbitrary: b)
  case 0
  then have "dep_path db n a b" by simp
  then show ?case ..
next
  case (Suc k)
  from Suc.prems obtain d :: dependency where "dep_path db (n + k) a (d_type d, d_uuid d)"
    by auto
  then show ?case by (rule Suc.IH)
qed

lemma dep_path_target:
  "dep_path db n a b \<Longrightarrow>
     b = a \<or> b \<in> (\<lambda>d. (d_dep_type d, d_dep_uuid d)) ` set (dependencies db)"
  by (cases n) auto

lemma where_used_rows_finite:
  assumes "\<forall>r\<in>set (top_parts db). \<forall>b. \<not> dep_path db N (''part'', r) b"
  shows "finite (cte_rows (where_used_initial db) (where_used_step db))"
proof -
  let ?I = "Pair ''part'' ` set (top_parts db)
            \<union> (\<lambda>d. (d_dep_type d, d_dep_uuid d)) ` set (dependencies db)"
  let ?B = "(\<lambda>((t, u), n, r). \<lparr>wu_typex = t, wu_uuidx = u, wu_level = int n, wu_root = r\<rparr>)
              ` (?I \<times> {..<N} \<times> set (top_parts db))"
  have "cte_rows (where_used_initial db) (where_used_step db) \<subseteq> ?B"
  proof
    fix w
    assume "w \<in> cte_rows (where_used_initial db) (where_used_step db)"
    then obtain n where r: "wu_root w \<in> set (top_parts db)" "wu_level w = int n"
      "dep_path db n (''part'', wu_root w) (wu_typex w, wu_uuidx w)"
      unfolding where_used_rows by blast
    have "n < N"
    proof (rule ccontr)
      assume "\<not> n < N"
      then have "dep_path db (N + (n - N)) (''part'', wu_root w) (wu_typex w, wu_uuidx w)"
        using r(3) by simp
      then have "\<exists>c. dep_path db N (''part'', wu_root w) c"
        by (rule dep_path_prefix)
      with assms r(1) show False by blast
    qed
    moreover have "(wu_typex w, wu_uuidx w) \<in> ?I" using dep_path_target [OF r(3)] r(1) by auto
    ultimately have "((wu_typex w, wu_uuidx w), n, wu_root w)
        \<in> ?I \<times> {..<N} \<times> set (top_parts db)"
      using r(1) by simp
    moreover have "w = (\<lambda>((t, u), n, r). \<lparr>wu_typex = t, wu_uuidx = u, wu_level = int n, wu_root = r\<rparr>)
        ((wu_typex w, wu_uuidx w), n, wu_root w)"
      using r(2) by simp
    ultimately show "w \<in> ?B" by (rule image_eqI [rotated])
  qed
  moreover have "finite ?B" by simp
  ultimately show ?thesis by (rule finite_subset)
qed

lemma where_used_levels_bounded: "\<exists>N. \<forall>w\<in>set rows. wu_level w < int N"
proof (induction rows)
  case Nil
  then show ?case by simp
next
  case (Cons a rows)
  then obtain N where N: "\<forall>w\<in>set rows. wu_level w < int N" by blast
  have "\<forall>w\<in>set (a # rows). wu_level w < int (max N (nat (wu_level a + 1)))"
    using N by auto
  then show ?case by blast
qed

lemma parts_where_used_terminates_iff:
  "(\<exists>rows. parts_where_used db = Some rows) \<longleftrightarrow>
     (\<exists>N. \<forall>r\<in>set (top_parts db). \<forall>b. \<not> dep_path db N (''part'', r) b)"
proof
  assume "\<exists>rows. parts_where_used db = Some rows"
  then obtain rows where rows: "parts_where_used db = Some rows" by blast
  have s: "set rows = cte_rows (where_used_initial db) (where_used_step db)"
    using recursive_union_result [OF rows [unfolded parts_where_used_def]] by simp
  obtain N where N: "\<forall>w\<in>set rows. wu_level w < int N"
    using where_used_levels_bounded [of rows] ..
  have "\<forall>r\<in>set (top_parts db). \<forall>b. \<not> dep_path db N (''part'', r) b"
  proof (intro ballI allI notI)
    fix r b
    assume r: "r \<in> set (top_parts db)" and p: "dep_path db N (''part'', r) b"
    let ?w = "\<lparr>wu_typex = fst b, wu_uuidx = snd b, wu_level = int N, wu_root = r\<rparr>"
    have 1: "wu_root ?w \<in> set (top_parts db)" using r by simp
    have 2: "wu_level ?w = int N" by simp
    have 3: "dep_path db N (''part'', wu_root ?w) (wu_typex ?w, wu_uuidx ?w)" using p by simp
    have "?w \<in> cte_rows (where_used_initial db) (where_used_step db)"
      using 1 2 3 by (rule where_used_rows_complete)
    then have m: "?w \<in> set rows" unfolding s .
    have "wu_level ?w < int N" by (rule N [THEN bspec, OF m])
    then show False by simp
  qed
  then show "\<exists>N. \<forall>r\<in>set (top_parts db). \<forall>b. \<not> dep_path db N (''part'', r) b"
    by (rule exI [of _ N])
next
  assume "\<exists>N. \<forall>r\<in>set (top_parts db). \<forall>b. \<not> dep_path db N (''part'', r) b"
  then obtain N where "\<forall>r\<in>set (top_parts db). \<forall>b. \<not> dep_path db N (''part'', r) b"
    by (rule exE)
  then have "finite (cte_rows (where_used_initial db) (where_used_step db))"
    by (rule where_used_rows_finite)
  then show "\<exists>rows. parts_where_used db = Some rows"
    unfolding parts_where_used_def by (rule recursive_union_terminates)
qed

section \<open>Which changed parts are roots\<close>

lemma top_parts_iff:
  "u \<in> set (top_parts db) \<longleftrightarrow>
     (\<exists>c\<in>set (git_files_view db). ci_type c = ''part'' \<and> ci_uuid c = u
        \<and> ((\<forall>p\<in>set (parts db). part_uuid p \<noteq> u)
           \<or> (\<exists>p\<in>set (parts db). part_uuid p = u
                 \<and> (part_base p = nil_uuid \<or> part_base p \<notin> ci_uuid ` set (git_files_view db)))))"
  (is "?L \<longleftrightarrow> ?R")
proof
  assume ?L
  then obtain c p gfv where j: "((c, p), gfv) \<in> set (left_join
             (left_join (git_files_view db) (parts db) (\<lambda>c p. ci_uuid c = part_uuid p))
             (git_files_view db)
             (\<lambda>(c, p) gfv. map_option part_base p = Some (ci_uuid gfv)))"
    and w: "map_option ci_uuid gfv = None \<or> map_option part_base p = Some nil_uuid"
      "ci_type c = ''part''" and u: "u = ci_uuid c"
    unfolding top_parts_def by auto
  from j have cp: "(c, p) \<in> set (left_join (git_files_view db) (parts db) (\<lambda>c p. ci_uuid c = part_uuid p))"
    unfolding set_left_join [of _ "git_files_view db"] by auto
  then have c: "c \<in> set (git_files_view db)" unfolding set_left_join by auto
  show ?R
  proof (cases p)
    case None
    with cp have "\<forall>p\<in>set (parts db). part_uuid p \<noteq> u" unfolding set_left_join u by auto
    with c w u show ?thesis by blast
  next
    case (Some q)
    with cp have q: "q \<in> set (parts db)" "part_uuid q = u" unfolding set_left_join u by auto
    have "part_base q = nil_uuid \<or> part_base q \<notin> ci_uuid ` set (git_files_view db)"
    proof (cases gfv)
      case None
      with j Some show ?thesis unfolding set_left_join [of _ "git_files_view db"] by auto
    next
      case (Some g)
      with w \<open>p = Some q\<close> show ?thesis by simp
    qed
    with c w u q show ?thesis by blast
  qed
next
  assume ?R
  then obtain c where c: "c \<in> set (git_files_view db)" "ci_type c = ''part''" "ci_uuid c = u"
    and d: "(\<forall>p\<in>set (parts db). part_uuid p \<noteq> u)
           \<or> (\<exists>p\<in>set (parts db). part_uuid p = u
                 \<and> (part_base p = nil_uuid \<or> part_base p \<notin> ci_uuid ` set (git_files_view db)))"
    by blast
  let ?J1 = "left_join (git_files_view db) (parts db) (\<lambda>c p. ci_uuid c = part_uuid p)"
  let ?on = "\<lambda>(c, p) gfv. map_option part_base p = Some (ci_uuid gfv)"
  let ?J2 = "left_join ?J1 (git_files_view db) ?on"
  let ?W = "\<lambda>((c, p), gfv).
                  (map_option ci_uuid gfv = None \<or> map_option part_base p = Some nil_uuid)
                  \<and> ci_type c = ''part''"
  have "\<exists>p gfv. ((c, p), gfv) \<in> set ?J2 \<and> ?W ((c, p), gfv)"
    using d
  proof
    assume "\<forall>p\<in>set (parts db). part_uuid p \<noteq> u"
    then have "(c, None) \<in> set ?J1" using c unfolding set_left_join by auto
    then have "((c, None), None) \<in> set ?J2" unfolding set_left_join [of ?J1] by auto
    then show ?thesis using c by force
  next
    assume "\<exists>p\<in>set (parts db). part_uuid p = u
                 \<and> (part_base p = nil_uuid \<or> part_base p \<notin> ci_uuid ` set (git_files_view db))"
    then obtain q where q: "q \<in> set (parts db)" "part_uuid q = u"
      "part_base q = nil_uuid \<or> part_base q \<notin> ci_uuid ` set (git_files_view db)" by blast
    then have j1: "(c, Some q) \<in> set ?J1" using c unfolding set_left_join by auto
    show ?thesis
    proof (cases "part_base q \<in> ci_uuid ` set (git_files_view db)")
      case True
      then obtain g where g: "g \<in> set (git_files_view db)" "ci_uuid g = part_base q" by auto
      with j1 have "((c, Some q), Some g) \<in> set ?J2" unfolding set_left_join [of ?J1] by auto
      moreover have "part_base q = nil_uuid" using q True by blast
      ultimately show ?thesis using c by force
    next
      case False
      with j1 have "((c, Some q), None) \<in> set ?J2" unfolding set_left_join [of ?J1] by auto
      then show ?thesis using c by force
    qed
  qed
  then obtain p gfv where "((c, p), gfv) \<in> set ?J2" "?W ((c, p), gfv)" by blast
  then have "ci_uuid c \<in> set (top_parts db)"
    unfolding top_parts_def set_map set_filter by force
  then show ?L using c by simp
qed

text \<open>
  The join on the base compares uuids only. Where the uuid of a base other than the nil
  uuid is carried by parts alone, "no changed row carries the uuid of the base" says
  that the base part is not in the change.
\<close>

lemma top_parts_typed:
  assumes "\<forall>c\<in>set (git_files_view db). \<forall>p\<in>set (parts db).
             part_base p \<noteq> nil_uuid \<and> ci_uuid c = part_base p \<longrightarrow> ci_type c = ''part''"
  shows "u \<in> set (top_parts db) \<longleftrightarrow>
     (\<exists>c\<in>set (git_files_view db). ci_type c = ''part'' \<and> ci_uuid c = u
        \<and> ((\<forall>p\<in>set (parts db). part_uuid p \<noteq> u)
           \<or> (\<exists>p\<in>set (parts db). part_uuid p = u
                 \<and> (part_base p = nil_uuid
                    \<or> (''part'', part_base p)
                         \<notin> (\<lambda>c. (ci_type c, ci_uuid c)) ` set (git_files_view db)))))"
proof -
  have "part_base p = nil_uuid \<or> part_base p \<notin> ci_uuid ` set (git_files_view db) \<longleftrightarrow>
      part_base p = nil_uuid \<or>
      (''part'', part_base p) \<notin> (\<lambda>c. (ci_type c, ci_uuid c)) ` set (git_files_view db)"
    if p: "p \<in> set (parts db)" for p
  proof (cases "part_base p = nil_uuid")
    case True
    then show ?thesis by simp
  next
    case False
    have "part_base p \<in> ci_uuid ` set (git_files_view db) \<longleftrightarrow>
      (''part'', part_base p) \<in> (\<lambda>c. (ci_type c, ci_uuid c)) ` set (git_files_view db)"
    proof
      assume "part_base p \<in> ci_uuid ` set (git_files_view db)"
      then obtain c where c: "c \<in> set (git_files_view db)" "ci_uuid c = part_base p" by auto
      with assms p False have "ci_type c = ''part''" by blast
      with c show "(''part'', part_base p) \<in> (\<lambda>c. (ci_type c, ci_uuid c)) ` set (git_files_view db)"
        by (intro image_eqI [of _ _ c]) simp_all
    next
      assume "(''part'', part_base p) \<in> (\<lambda>c. (ci_type c, ci_uuid c)) ` set (git_files_view db)"
      then obtain c where "c \<in> set (git_files_view db)" "ci_uuid c = part_base p" by auto
      then show "part_base p \<in> ci_uuid ` set (git_files_view db)"
        by (intro image_eqI [of _ _ c]) simp_all
    qed
    then show ?thesis by simp
  qed
  then show ?thesis unfolding top_parts_iff by blast
qed

section \<open>The views on the example pools\<close>

lemma pool1_git_files_view:
  "git_files_view pool1 =
    [\<lparr>ci_type = ''part'', ci_uuid = ''uP'', ci_name = ''P'',
       ci_filename = ''parts/P.json'', ci_status = 3\<rparr>,
     \<lparr>ci_type = ''unit'', ci_uuid = ''uU'', ci_name = ''U'',
       ci_filename = ''units/U.json'', ci_status = 3\<rparr>,
     \<lparr>ci_type = ''model_3d'', ci_uuid = nil_uuid, ci_name = '''',
       ci_filename = ''3d/K.step'', ci_status = 1\<rparr>]"
  by code_simp

lemma pool1_non_items: "non_items pool1 = [''README.md'', ''3d/K.step'']"
  by code_simp

lemma pool1_top_parts: "top_parts pool1 = [''uP'']"
  by code_simp

lemma pool1_parts_where_used:
  "parts_where_used pool1 = Some
    [\<lparr>wu_typex = ''part'', wu_uuidx = ''uP'', wu_level = 0, wu_root = ''uP''\<rparr>,
     \<lparr>wu_typex = ''entity'', wu_uuidx = ''uE'', wu_level = 1, wu_root = ''uP''\<rparr>,
     \<lparr>wu_typex = ''package'', wu_uuidx = ''uK'', wu_level = 1, wu_root = ''uP''\<rparr>,
     \<lparr>wu_typex = ''unit'', wu_uuidx = ''uU'', wu_level = 2, wu_root = ''uP''\<rparr>]"
  by code_simp

lemma pool1_parts_tree:
  "parts_tree pool1 = Some
    [\<lparr>t_type = ''part'', t_name = Some ''P'', t_level = 0, t_type_order = 0,
       t_in_pr = 1, t_uuid = ''uP'', t_root = ''uP''\<rparr>,
     \<lparr>t_type = ''entity'', t_name = Some ''E'', t_level = 1, t_type_order = 1,
       t_in_pr = 0, t_uuid = ''uE'', t_root = ''uP''\<rparr>,
     \<lparr>t_type = ''package'', t_name = Some ''K'', t_level = 1, t_type_order = 4,
       t_in_pr = 0, t_uuid = ''uK'', t_root = ''uP''\<rparr>,
     \<lparr>t_type = ''unit'', t_name = Some ''U'', t_level = 2, t_type_order = 2,
       t_in_pr = 1, t_uuid = ''uU'', t_root = ''uP''\<rparr>]"
  by code_simp

lemma pool1_all_parts_tree:
  "all_parts_tree pool1 = Some
    [\<lparr>t_type = ''part'', t_name = Some ''P'', t_level = 0, t_type_order = 0,
       t_in_pr = 1, t_uuid = ''uP'', t_root = ''uP''\<rparr>,
     \<lparr>t_type = ''entity'', t_name = Some ''E'', t_level = 1, t_type_order = 1,
       t_in_pr = 0, t_uuid = ''uE'', t_root = ''uP''\<rparr>,
     \<lparr>t_type = ''unit'', t_name = Some ''U'', t_level = 2, t_type_order = 2,
       t_in_pr = 1, t_uuid = ''uU'', t_root = ''uP''\<rparr>,
     \<lparr>t_type = ''symbol'', t_name = Some ''S'', t_level = 3, t_type_order = 3,
       t_in_pr = 1, t_uuid = ''uS'', t_root = ''uP''\<rparr>,
     \<lparr>t_type = ''package'', t_name = Some ''K'', t_level = 1, t_type_order = 4,
       t_in_pr = 0, t_uuid = ''uK'', t_root = ''uP''\<rparr>,
     \<lparr>t_type = ''model_3d'', t_name = Some ''3d/K.step'', t_level = 2, t_type_order = 5,
       t_in_pr = 0, t_uuid = '''', t_root = ''uP''\<rparr>]"
  by code_simp

lemma pool1_symbol_changed_all_parts_tree:
  "all_parts_tree pool1_symbol_changed = all_parts_tree pool1"
  by code_simp

lemma pool1_derived_parts_tree:
  "derived_parts_tree pool1 = Some
    [\<lparr>dr_MPN = Some ''P'', dr_level = 0, dr_in_pr = 1, dr_uuid = ''uP''\<rparr>,
     \<lparr>dr_MPN = Some ''Q'', dr_level = 1, dr_in_pr = 0, dr_uuid = ''uQ''\<rparr>]"
  by code_simp

lemma pool2_all_parts_tree:
  "all_parts_tree pool2 = Some
  [\<lparr>t_type = ''part'', t_name = Some ''D'', t_level = 0, t_type_order = 0,
      t_in_pr = 1, t_uuid = ''uD'', t_root = ''uD''\<rparr>,
   \<lparr>t_type = ''part'', t_name = Some ''B'', t_level = 1, t_type_order = 0,
      t_in_pr = 0, t_uuid = ''uB'', t_root = ''uD''\<rparr>,
   \<lparr>t_type = ''entity'', t_name = Some ''E'', t_level = 1, t_type_order = 1,
      t_in_pr = 0, t_uuid = ''uE'', t_root = ''uD''\<rparr>,
   \<lparr>t_type = ''entity'', t_name = Some ''E'', t_level = 2, t_type_order = 1,
      t_in_pr = 0, t_uuid = ''uE'', t_root = ''uD''\<rparr>,
   \<lparr>t_type = ''unit'', t_name = Some ''R10'', t_level = 2, t_type_order = 2,
      t_in_pr = 0, t_uuid = ''u1'', t_root = ''uD''\<rparr>,
   \<lparr>t_type = ''unit'', t_name = Some ''R2'', t_level = 2, t_type_order = 2,
      t_in_pr = 0, t_uuid = ''u2'', t_root = ''uD''\<rparr>,
   \<lparr>t_type = ''unit'', t_name = Some ''R10'', t_level = 3, t_type_order = 2,
      t_in_pr = 0, t_uuid = ''u1'', t_root = ''uD''\<rparr>,
   \<lparr>t_type = ''unit'', t_name = Some ''R2'', t_level = 3, t_type_order = 2,
      t_in_pr = 0, t_uuid = ''u2'', t_root = ''uD''\<rparr>]"
  by code_simp

lemma pool2_parts_where_used:
  "parts_where_used pool2 = Some
  [\<lparr>wu_typex = ''part'', wu_uuidx = ''uD'', wu_level = 0, wu_root = ''uD''\<rparr>,
   \<lparr>wu_typex = ''part'', wu_uuidx = ''uB'', wu_level = 1, wu_root = ''uD''\<rparr>,
   \<lparr>wu_typex = ''entity'', wu_uuidx = ''uE'', wu_level = 1, wu_root = ''uD''\<rparr>,
   \<lparr>wu_typex = ''entity'', wu_uuidx = ''uE'', wu_level = 2, wu_root = ''uD''\<rparr>,
   \<lparr>wu_typex = ''unit'', wu_uuidx = ''u1'', wu_level = 2, wu_root = ''uD''\<rparr>,
   \<lparr>wu_typex = ''unit'', wu_uuidx = ''u2'', wu_level = 2, wu_root = ''uD''\<rparr>,
   \<lparr>wu_typex = ''unit'', wu_uuidx = ''u1'', wu_level = 3, wu_root = ''uD''\<rparr>,
   \<lparr>wu_typex = ''unit'', wu_uuidx = ''u2'', wu_level = 3, wu_root = ''uD''\<rparr>]"
  by code_simp

lemma pool3_top_parts: "top_parts pool3 = [''uA'']"
  by code_simp

lemma pool4_git_files_view:
  "git_files_view pool4 =
    [\<lparr>ci_type = ''part'', ci_uuid = ''uD'', ci_name = ''D'',
       ci_filename = ''parts/D.json'', ci_status = 3\<rparr>,
     \<lparr>ci_type = ''unit'', ci_uuid = ''uB'', ci_name = ''X'',
       ci_filename = ''units/X.json'', ci_status = 3\<rparr>]"
  by code_simp

lemma pool4_top_parts: "top_parts pool4 = []"
  by code_simp

lemma pool5_top_parts: "top_parts pool5 = [''uP'']"
  by code_simp

lemma pool2_top_parts: "top_parts pool2 = [''uD'']"
  by code_simp

section \<open>Changed files that are items, and those that are not\<close>

lemma set_non_items:
  "set (non_items db)
     = {f. f \<in> git_filename ` set (git_files db) \<and> f \<notin> item_filename ` set (all_items_view db)}"
  unfolding non_items_def set_map set_filter set_left_join by force

lemma set_git_files_view:
  "set (git_files_view db) =
     {\<lparr>ci_type = item_type i, ci_uuid = item_uuid i, ci_name = item_name i,
       ci_filename = git_filename g, ci_status = git_status g\<rparr> | g i.
       g \<in> set (git_files db) \<and> i \<in> set (all_items_view db)
       \<and> item_filename i = git_filename g}
     \<union> {\<lparr>ci_type = ''model_3d'', ci_uuid = nil_uuid, ci_name = '''',
          ci_filename = git_filename g, ci_status = git_status g\<rparr> | g m.
          g \<in> set (git_files db) \<and> m \<in> set (models db)
          \<and> model_filename m = git_filename g}"
  unfolding git_files_view_def set_map set_inner_join set_append model_items_def set_sql_distinct
  by (rule set_eqI) force

text \<open>
  Claim C7, as the code has it. The two lists come from two joins with different tables.
  A path of the diff is listed under "Non-items" if and only if no row of
  \<open>all_items_view\<close> has it as its file name. The rows of \<open>git_files_view\<close>, the list
  "Items in this PR", are exactly these: for each entry of the diff and each row of
  \<open>all_items_view\<close> with its file name, the type, uuid and name of that row with the path
  and status of the entry; and for each entry of the diff whose path is the file name of
  a 3D model in \<open>models\<close>, the type \<open>model_3d\<close>, the nil uuid and the empty name with the
  path and status of the entry. So an entry with a row in \<open>all_items_view\<close> is emitted
  and is no non-item, and the changed file of a 3D model is emitted and is a non-item
  too.
\<close>

theorem non_items_and_changed_items_exact:
  "(f \<in> set (non_items db) \<longleftrightarrow>
      f \<in> git_filename ` set (git_files db) \<and> f \<notin> item_filename ` set (all_items_view db))
   \<and> set (git_files_view db) =
     {\<lparr>ci_type = item_type i, ci_uuid = item_uuid i, ci_name = item_name i,
       ci_filename = git_filename g, ci_status = git_status g\<rparr> | g i.
       g \<in> set (git_files db) \<and> i \<in> set (all_items_view db)
       \<and> item_filename i = git_filename g}
     \<union> {\<lparr>ci_type = ''model_3d'', ci_uuid = nil_uuid, ci_name = '''',
          ci_filename = git_filename g, ci_status = git_status g\<rparr> | g m.
          g \<in> set (git_files db) \<and> m \<in> set (models db)
          \<and> model_filename m = git_filename g}"
proof
  show "f \<in> set (non_items db) \<longleftrightarrow>
      f \<in> git_filename ` set (git_files db) \<and> f \<notin> item_filename ` set (all_items_view db)"
    by (simp add: set_non_items)
qed (rule set_git_files_view)

theorem non_items_and_changed_items_exact_witness:
  "''README.md'' \<in> set (non_items pool1)
   \<and> ''parts/P.json'' \<notin> set (non_items pool1)
   \<and> \<lparr>ci_type = ''part'', ci_uuid = ''uP'', ci_name = ''P'',
       ci_filename = ''parts/P.json'', ci_status = 3\<rparr> \<in> set (git_files_view pool1)
   \<and> \<lparr>ci_type = ''part'', ci_uuid = ''uP'', ci_name = ''P'',
       ci_filename = ''README.md'', ci_status = 1\<rparr> \<notin> set (git_files_view pool1)"
proof -
  let ?g = "\<lparr>git_filename = ''parts/P.json'', git_status = 3\<rparr>"
  let ?i = "\<lparr>item_type = ''part'', item_uuid = ''uP'', item_name = ''P'',
             item_filename = ''parts/P.json''\<rparr>"
  note t1 = non_items_and_changed_items_exact [of "''README.md''" pool1, THEN conjunct1]
  note t2 = non_items_and_changed_items_exact [of "''parts/P.json''" pool1, THEN conjunct1]
  note t3 = non_items_and_changed_items_exact [of "''README.md''" pool1, THEN conjunct2]
  have 1: "''README.md'' \<in> set (non_items pool1)"
    unfolding t1 by (simp add: pool1_def)
  have 2: "''parts/P.json'' \<notin> set (non_items pool1)"
    unfolding t2 by (simp add: pool1_def)
  have 3: "\<lparr>ci_type = ''part'', ci_uuid = ''uP'', ci_name = ''P'',
       ci_filename = ''parts/P.json'', ci_status = 3\<rparr> \<in> set (git_files_view pool1)"
    unfolding t3
    by (rule UnI1, rule CollectI, rule exI [of _ ?g], rule exI [of _ ?i]) (simp add: pool1_def)
  have 4: "\<lparr>ci_type = ''part'', ci_uuid = ''uP'', ci_name = ''P'',
       ci_filename = ''README.md'', ci_status = 1\<rparr> \<notin> set (git_files_view pool1)"
    by (simp add: pool1_git_files_view)
  from 1 2 3 4 show ?thesis by blast
qed

text \<open>
  Claim C7 as stated fails: the two lists are not alternatives. In \<open>pool1\<close> the path
  \<open>3d/K.step\<close> has a row in the table that \<open>git_files_view\<close> joins the diff with, and is
  emitted with the type, uuid and name of that row; it is listed under "Non-items" all
  the same.
\<close>

theorem model_file_item_and_non_item_counterexample:
  "''3d/K.step'' \<in> set (non_items pool1)
   \<and> \<lparr>item_type = ''model_3d'', item_uuid = nil_uuid, item_name = '''',
       item_filename = ''3d/K.step''\<rparr> \<in> set (all_items_view pool1 @ model_items (models pool1))
   \<and> \<lparr>ci_type = ''model_3d'', ci_uuid = nil_uuid, ci_name = '''',
       ci_filename = ''3d/K.step'', ci_status = 1\<rparr> \<in> set (git_files_view pool1)"
proof -
  have "\<lparr>item_type = ''model_3d'', item_uuid = nil_uuid, item_name = '''',
       item_filename = ''3d/K.step''\<rparr> \<in> set (model_items (models pool1))"
    by (simp add: pool1_def model_items_def sql_distinct_def)
  then show ?thesis by (simp add: pool1_non_items pool1_git_files_view)
qed

section \<open>Roots and the seeds of the closure\<close>

lemma where_used_table:
  assumes "parts_where_used db = Some rows"
  shows "distinct rows"
    and "w \<in> set rows \<longleftrightarrow>
       wu_root w \<in> set (top_parts db)
       \<and> (\<exists>n. wu_level w = int n
            \<and> dep_path db n (''part'', wu_root w) (wu_typex w, wu_uuidx w))"
  using recursive_union_result [OF assms [unfolded parts_where_used_def]] where_used_rows [of w db]
  by simp_all

lemma where_used_rows_level_0:
  "{w \<in> cte_rows (where_used_initial db) (where_used_step db). wu_level w = 0}
     = (\<lambda>u. \<lparr>wu_typex = ''part'', wu_uuidx = u, wu_level = 0, wu_root = u\<rparr>) ` set (top_parts db)"
proof (intro set_eqI iffI)
  fix w
  assume "w \<in> {w \<in> cte_rows (where_used_initial db) (where_used_step db). wu_level w = 0}"
  then have "wu_root w \<in> set (top_parts db)" "wu_level w = 0"
    "dep_path db 0 (''part'', wu_root w) (wu_typex w, wu_uuidx w)"
    using where_used_rows [of w db] by auto
  then have "wu_root w \<in> set (top_parts db)"
    "w = \<lparr>wu_typex = ''part'', wu_uuidx = wu_root w, wu_level = 0, wu_root = wu_root w\<rparr>"
    by simp_all
  then show "w \<in> (\<lambda>u. \<lparr>wu_typex = ''part'', wu_uuidx = u, wu_level = 0, wu_root = u\<rparr>) ` set (top_parts db)"
    by (rule rev_image_eqI)
next
  fix w
  assume "w \<in> (\<lambda>u. \<lparr>wu_typex = ''part'', wu_uuidx = u, wu_level = 0, wu_root = u\<rparr>) ` set (top_parts db)"
  then obtain u where u: "u \<in> set (top_parts db)"
    "w = \<lparr>wu_typex = ''part'', wu_uuidx = u, wu_level = 0, wu_root = u\<rparr>" by blast
  then have "w \<in> set (where_used_initial db)" by (simp add: where_used_initial_def)
  then have "w \<in> cte_rows (where_used_initial db) (where_used_step db)"
    by (rule cte_rows.initial)
  then show "w \<in> {w \<in> cte_rows (where_used_initial db) (where_used_step db). wu_level w = 0}"
    using u by simp
qed

lemma where_used_finished_level_0:
  assumes "\<forall>r\<in>set (top_parts db). \<forall>b. \<not> dep_path db N (''part'', r) b"
  shows "\<exists>rows. parts_where_used db = Some rows
     \<and> {w \<in> set rows. wu_level w = 0}
         = (\<lambda>u. \<lparr>wu_typex = ''part'', wu_uuidx = u, wu_level = 0, wu_root = u\<rparr>)
             ` set (top_parts db)"
proof -
  have "\<exists>N. \<forall>r\<in>set (top_parts db). \<forall>b. \<not> dep_path db N (''part'', r) b"
    using assms by (rule exI [of _ N])
  then have "\<exists>rows. parts_where_used db = Some rows"
    by (rule parts_where_used_terminates_iff [of db, THEN iffD2])
  then obtain rows where rows: "parts_where_used db = Some rows" by (rule exE)
  have "set rows = cte_rows (where_used_initial db) (where_used_step db)"
    using recursive_union_result [OF rows [unfolded parts_where_used_def]] by simp
  then have "{w \<in> set rows. wu_level w = 0}
         = (\<lambda>u. \<lparr>wu_typex = ''part'', wu_uuidx = u, wu_level = 0, wu_root = u\<rparr>)
             ` set (top_parts db)"
    using where_used_rows_level_0 [of db] by simp
  with rows show ?thesis by blast
qed

lemma pool1_bounded: "\<forall>b. \<not> dep_path pool1 3 (''part'', ''uP'') b"
  by (simp add: eval_nat_numeral) (auto simp: pool1_def)

text \<open>
  Claim C2, as the code has it. The join \<open>gfv.uuid = parts.base\<close> compares uuids and
  no types. A part of the changed set, that is a row of \<open>git_files_view\<close> of type
  \<open>part\<close>, is selected by \<open>top_parts\<close> if and only if the table \<open>parts\<close> has no row for
  it, or its base is the nil uuid, or no changed row of whatever type carries the uuid of
  its base. Only these roots seed the closure: the initial select of \<open>where_used\<close> is one
  row \<open>('part', u, 0, u)\<close> for each root \<open>u\<close>; of all rows that follow from the initial
  ones, those of level 0 are these; and when no path of \<open>N\<close> dependencies starts at a
  root, the query returns a table whose rows of level 0 are these.
\<close>

theorem root_iff_no_changed_base:
  "(u \<in> set (top_parts db) \<longleftrightarrow>
     (\<exists>c\<in>set (git_files_view db). ci_type c = ''part'' \<and> ci_uuid c = u
        \<and> ((\<forall>p\<in>set (parts db). part_uuid p \<noteq> u)
           \<or> (\<exists>p\<in>set (parts db). part_uuid p = u
                 \<and> (part_base p = nil_uuid
                    \<or> part_base p \<notin> ci_uuid ` set (git_files_view db))))))
   \<and> where_used_initial db
        = map (\<lambda>u. \<lparr>wu_typex = ''part'', wu_uuidx = u, wu_level = 0, wu_root = u\<rparr>) (top_parts db)
   \<and> {w \<in> cte_rows (where_used_initial db) (where_used_step db). wu_level w = 0}
        = (\<lambda>u. \<lparr>wu_typex = ''part'', wu_uuidx = u, wu_level = 0, wu_root = u\<rparr>)
            ` set (top_parts db)
   \<and> ((\<forall>r\<in>set (top_parts db). \<forall>b. \<not> dep_path db N (''part'', r) b) \<longrightarrow>
        (\<exists>rows. parts_where_used db = Some rows
          \<and> {w \<in> set rows. wu_level w = 0}
              = (\<lambda>u. \<lparr>wu_typex = ''part'', wu_uuidx = u, wu_level = 0, wu_root = u\<rparr>)
                  ` set (top_parts db)))"
proof (intro conjI impI)
  show "u \<in> set (top_parts db) \<longleftrightarrow>
     (\<exists>c\<in>set (git_files_view db). ci_type c = ''part'' \<and> ci_uuid c = u
        \<and> ((\<forall>p\<in>set (parts db). part_uuid p \<noteq> u)
           \<or> (\<exists>p\<in>set (parts db). part_uuid p = u
                 \<and> (part_base p = nil_uuid
                    \<or> part_base p \<notin> ci_uuid ` set (git_files_view db)))))"
    by (rule top_parts_iff)
next
  show "where_used_initial db
        = map (\<lambda>u. \<lparr>wu_typex = ''part'', wu_uuidx = u, wu_level = 0, wu_root = u\<rparr>) (top_parts db)"
    by (rule where_used_initial_def)
next
  show "{w \<in> cte_rows (where_used_initial db) (where_used_step db). wu_level w = 0}
        = (\<lambda>u. \<lparr>wu_typex = ''part'', wu_uuidx = u, wu_level = 0, wu_root = u\<rparr>)
            ` set (top_parts db)"
    by (rule where_used_rows_level_0)
next
  assume "\<forall>r\<in>set (top_parts db). \<forall>b. \<not> dep_path db N (''part'', r) b"
  then show "\<exists>rows. parts_where_used db = Some rows
          \<and> {w \<in> set rows. wu_level w = 0}
              = (\<lambda>u. \<lparr>wu_typex = ''part'', wu_uuidx = u, wu_level = 0, wu_root = u\<rparr>)
                  ` set (top_parts db)"
    by (rule where_used_finished_level_0)
qed

theorem root_iff_no_changed_base_witness:
  "''uP'' \<in> set (top_parts pool1)
   \<and> (\<exists>c\<in>set (git_files_view pool1). ci_type c = ''part'' \<and> ci_uuid c = ''uP''
        \<and> (\<exists>p\<in>set (parts pool1). part_uuid p = ''uP'' \<and> part_base p = nil_uuid))
   \<and> (\<forall>b. \<not> dep_path pool1 3 (''part'', ''uP'') b)
   \<and> (\<exists>rows. parts_where_used pool1 = Some rows
        \<and> {w \<in> set rows. wu_level w = 0}
            = {\<lparr>wu_typex = ''part'', wu_uuidx = ''uP'', wu_level = 0, wu_root = ''uP''\<rparr>})"
proof -
  note t = root_iff_no_changed_base [of "''uP''" pool1 3]
  note t1 = t [THEN conjunct1]
  note t4 = t [THEN conjunct2, THEN conjunct2, THEN conjunct2]
  have 2: "\<exists>c\<in>set (git_files_view pool1). ci_type c = ''part'' \<and> ci_uuid c = ''uP''
        \<and> ((\<forall>p\<in>set (parts pool1). part_uuid p \<noteq> ''uP'')
           \<or> (\<exists>p\<in>set (parts pool1). part_uuid p = ''uP''
                 \<and> (part_base p = nil_uuid
                    \<or> part_base p \<notin> ci_uuid ` set (git_files_view pool1))))"
    by (simp add: pool1_git_files_view) (simp add: pool1_def)
  have w2: "\<exists>c\<in>set (git_files_view pool1). ci_type c = ''part'' \<and> ci_uuid c = ''uP''
        \<and> (\<exists>p\<in>set (parts pool1). part_uuid p = ''uP'' \<and> part_base p = nil_uuid)"
    by (simp add: pool1_git_files_view) (simp add: pool1_def)
  have 1: "''uP'' \<in> set (top_parts pool1)" unfolding t1 by (rule 2)
  have b: "\<forall>r\<in>set (top_parts pool1). \<forall>b. \<not> dep_path pool1 3 (''part'', r) b"
    using pool1_bounded by (simp add: pool1_top_parts)
  have "\<exists>rows. parts_where_used pool1 = Some rows
          \<and> {w \<in> set rows. wu_level w = 0}
              = (\<lambda>u. \<lparr>wu_typex = ''part'', wu_uuidx = u, wu_level = 0, wu_root = u\<rparr>)
                  ` set (top_parts pool1)"
    by (rule t4 [THEN mp, OF b])
  then have 3: "\<exists>rows. parts_where_used pool1 = Some rows
        \<and> {w \<in> set rows. wu_level w = 0}
            = {\<lparr>wu_typex = ''part'', wu_uuidx = ''uP'', wu_level = 0, wu_root = ''uP''\<rparr>}"
    by (simp add: pool1_top_parts)
  from 1 w2 3 pool1_bounded show ?thesis by (intro conjI)
qed

text \<open>
  Claim C2 as stated fails. In \<open>pool4\<close> the changed records are the part \<open>D\<close> and the
  unit \<open>X\<close>. The base of \<open>D\<close> is the part \<open>B\<close>, which is not changed, so \<open>D\<close> has no
  base in the changed set and its base is not the nil uuid; but the unit \<open>X\<close> carries the
  uuid of \<open>B\<close>, and \<open>top_parts\<close> selects no root.
\<close>

theorem root_by_typed_ref_counterexample:
  "map (\<lambda>c. (ci_type c, ci_uuid c)) (git_files_view pool4) = [(''part'', ''uD''), (''unit'', ''uB'')]
   \<and> map (\<lambda>p. (part_uuid p, part_base p)) (parts pool4)
        = [(''uD'', ''uB''), (''uB'', nil_uuid)]
   \<and> ''uB'' \<noteq> nil_uuid
   \<and> top_parts pool4 = []"
  by (simp add: pool4_git_files_view pool4_top_parts) (simp add: pool4_def nil_uuid_def)

section \<open>The closure and the printed tree\<close>

lemma all_parts_tree_Some:
  "all_parts_tree db = Some rows \<longleftrightarrow>
     (\<exists>pt. parts_tree db = Some pt \<and> rows = all_parts_tree_rows db pt)"
  by (auto simp: all_parts_tree_def)

lemma parts_tree_Some:
  "parts_tree db = Some pt \<longleftrightarrow>
     (\<exists>wu. parts_where_used db = Some wu \<and> pt = parts_tree_rows db wu)"
  by (auto simp: parts_tree_def)

lemma set_all_parts_tree_rows:
  "set (all_parts_tree_rows db pt) = set pt \<union> set (model_rows db pt) \<union> set (symbol_rows db pt)"
  by (auto simp: all_parts_tree_rows_def set_sql_distinct)

lemma distinct_all_parts_tree_rows: "distinct (all_parts_tree_rows db pt)"
  by (simp add: all_parts_tree_rows_def distinct_sql_distinct)

lemma sorted_all_parts_tree_rows: "sorted (map order_key (all_parts_tree_rows db pt))"
  by (simp add: all_parts_tree_rows_def)

lemma pool5_cycle:
  "dep_path pool5 n (''part'', ''uP'') (if n = 0 then (''part'', ''uP'') else (''entity'', ''uE''))"
proof (induction n)
  case 0
  then show ?case by simp
next
  case (Suc n)
  then have "dep_path pool5 (Suc n) (''part'', ''uP'') (''entity'', ''uE'')"
    by (cases "n = 0") (simp_all add: pool5_def)
  then show ?case by simp
qed

lemma pool5_unbounded:
  "\<not> (\<exists>N. \<forall>r\<in>set (top_parts pool5). \<forall>b. \<not> dep_path pool5 N (''part'', r) b)"
proof
  assume "\<exists>N. \<forall>r\<in>set (top_parts pool5). \<forall>b. \<not> dep_path pool5 N (''part'', r) b"
  then obtain N where "\<forall>b. \<not> dep_path pool5 N (''part'', ''uP'') b"
    by (auto simp: pool5_top_parts)
  with pool5_cycle [of N] show False by blast
qed

lemma pool2_bounded: "\<forall>b. \<not> dep_path pool2 4 (''part'', ''uD'') b"
  by (simp add: eval_nat_numeral) (auto simp: pool2_def)

text \<open>
  Claim C3, as the code has it. The recursive table joins its two selects with \<open>UNION\<close>,
  which drops a row only when all four columns, the level among them, repeat. When the
  paths of dependencies that start at a root have bounded length, the query returns; the
  table \<open>where_used\<close> then holds no row twice, and it holds the row
  \<open>(type, uuid, level, root)\<close> exactly when \<open>root\<close> is a root and some path of \<open>level\<close>
  dependencies leads from the root to the item: an item reached by paths of several
  lengths has one row for each length, not only the row of the least depth; and the
  printed tree holds no row twice either. When these paths have no bound, as with a
  cycle of dependencies below a root, every turn of the cycle is a new row, the query
  does not return, and there is no tree.
\<close>

theorem closure_row_per_path_length:
  "((\<exists>N. \<forall>r\<in>set (top_parts db). \<forall>b. \<not> dep_path db N (''part'', r) b) \<longrightarrow>
      (\<exists>rows. parts_where_used db = Some rows \<and> distinct rows
        \<and> (\<forall>w. w \<in> set rows \<longleftrightarrow>
              wu_root w \<in> set (top_parts db)
              \<and> (\<exists>n. wu_level w = int n
                   \<and> dep_path db n (''part'', wu_root w) (wu_typex w, wu_uuidx w)))
        \<and> (\<exists>tree. all_parts_tree db = Some tree \<and> distinct tree)))
   \<and> (\<not> (\<exists>N. \<forall>r\<in>set (top_parts db). \<forall>b. \<not> dep_path db N (''part'', r) b) \<longrightarrow>
        parts_where_used db = None \<and> all_parts_tree db = None)"
proof (intro conjI impI)
  assume "\<exists>N. \<forall>r\<in>set (top_parts db). \<forall>b. \<not> dep_path db N (''part'', r) b"
  then have "\<exists>rows. parts_where_used db = Some rows"
    by (rule parts_where_used_terminates_iff [THEN iffD2])
  then obtain rows where rows: "parts_where_used db = Some rows" by (rule exE)
  have 1: "distinct rows" using rows by (rule where_used_table(1))
  have 2: "\<forall>w. w \<in> set rows \<longleftrightarrow>
              wu_root w \<in> set (top_parts db)
              \<and> (\<exists>n. wu_level w = int n
                   \<and> dep_path db n (''part'', wu_root w) (wu_typex w, wu_uuidx w))"
    using where_used_table(2) [OF rows] by (rule allI)
  have "all_parts_tree db = Some (all_parts_tree_rows db (parts_tree_rows db rows))"
    using rows by (simp add: all_parts_tree_def parts_tree_def)
  then have 3: "\<exists>tree. all_parts_tree db = Some tree \<and> distinct tree"
    using distinct_all_parts_tree_rows by blast
  from rows 1 2 3 show "\<exists>rows. parts_where_used db = Some rows \<and> distinct rows
        \<and> (\<forall>w. w \<in> set rows \<longleftrightarrow>
              wu_root w \<in> set (top_parts db)
              \<and> (\<exists>n. wu_level w = int n
                   \<and> dep_path db n (''part'', wu_root w) (wu_typex w, wu_uuidx w)))
        \<and> (\<exists>tree. all_parts_tree db = Some tree \<and> distinct tree)"
    by (intro exI [of _ rows] conjI)
next
  assume n: "\<not> (\<exists>N. \<forall>r\<in>set (top_parts db). \<forall>b. \<not> dep_path db N (''part'', r) b)"
  show "parts_where_used db = None"
  proof (cases "parts_where_used db")
    case None
    then show ?thesis .
  next
    case (Some rows)
    then have "\<exists>rows. parts_where_used db = Some rows" by (rule exI)
    then have "\<exists>N. \<forall>r\<in>set (top_parts db). \<forall>b. \<not> dep_path db N (''part'', r) b"
      by (rule parts_where_used_terminates_iff [THEN iffD1])
    with n show ?thesis by (rule notE)
  qed
  then show "all_parts_tree db = None" by (simp add: all_parts_tree_def parts_tree_def)
qed

theorem closure_row_per_path_length_witness:
  "(\<forall>b. \<not> dep_path pool2 4 (''part'', ''uD'') b)
   \<and> (\<exists>rows. parts_where_used pool2 = Some rows \<and> distinct rows
        \<and> \<lparr>wu_typex = ''entity'', wu_uuidx = ''uE'', wu_level = 1, wu_root = ''uD''\<rparr> \<in> set rows
        \<and> \<lparr>wu_typex = ''entity'', wu_uuidx = ''uE'', wu_level = 2, wu_root = ''uD''\<rparr> \<in> set rows
        \<and> (\<forall>w. w \<in> set rows \<longleftrightarrow>
              wu_root w \<in> set (top_parts pool2)
              \<and> (\<exists>n. wu_level w = int n
                   \<and> dep_path pool2 n (''part'', wu_root w) (wu_typex w, wu_uuidx w))))
   \<and> parts_where_used pool5 = None \<and> all_parts_tree pool5 = None"
proof -
  have b: "\<exists>N. \<forall>r\<in>set (top_parts pool2). \<forall>b. \<not> dep_path pool2 N (''part'', r) b"
    using pool2_bounded by (intro exI [of _ 4]) (simp add: pool2_top_parts)
  from closure_row_per_path_length [of pool2, THEN conjunct1, THEN mp, OF b]
  obtain rows where rows: "parts_where_used pool2 = Some rows" "distinct rows"
    "\<forall>w. w \<in> set rows \<longleftrightarrow>
              wu_root w \<in> set (top_parts pool2)
              \<and> (\<exists>n. wu_level w = int n
                   \<and> dep_path pool2 n (''part'', wu_root w) (wu_typex w, wu_uuidx w))"
    by (elim exE conjE)
  have m: "\<lparr>wu_typex = ''entity'', wu_uuidx = ''uE'', wu_level = 1, wu_root = ''uD''\<rparr> \<in> set rows"
    "\<lparr>wu_typex = ''entity'', wu_uuidx = ''uE'', wu_level = 2, wu_root = ''uD''\<rparr> \<in> set rows"
    using rows(1) unfolding pool2_parts_where_used by auto
  have 1: "\<exists>rows. parts_where_used pool2 = Some rows \<and> distinct rows
        \<and> \<lparr>wu_typex = ''entity'', wu_uuidx = ''uE'', wu_level = 1, wu_root = ''uD''\<rparr> \<in> set rows
        \<and> \<lparr>wu_typex = ''entity'', wu_uuidx = ''uE'', wu_level = 2, wu_root = ''uD''\<rparr> \<in> set rows
        \<and> (\<forall>w. w \<in> set rows \<longleftrightarrow>
              wu_root w \<in> set (top_parts pool2)
              \<and> (\<exists>n. wu_level w = int n
                   \<and> dep_path pool2 n (''part'', wu_root w) (wu_typex w, wu_uuidx w)))"
    using rows m by (intro exI [of _ rows] conjI)
  have 2: "parts_where_used pool5 = None \<and> all_parts_tree pool5 = None"
    by (rule closure_row_per_path_length [of pool5, THEN conjunct2, THEN mp, OF pool5_unbounded])
  from pool2_bounded 1 2 show ?thesis by (intro conjI) (elim conjE, assumption)+
qed

text \<open>
  Claim C3 as stated fails. In \<open>pool2\<close> the changed part \<open>D\<close> uses the entity \<open>E\<close>
  directly and through its base \<open>B\<close>: the tree has \<open>E\<close> at depth 1 and again at depth 2
  under the one root \<open>D\<close>, and each unit of \<open>E\<close> at depths 2 and 3.
\<close>

theorem closure_min_depth_counterexample:
  "map_option (map (\<lambda>r. (t_type r, t_uuid r, t_level r, t_root r))) (all_parts_tree pool2) =
     Some [(''part'', ''uD'', 0, ''uD''), (''part'', ''uB'', 1, ''uD''),
           (''entity'', ''uE'', 1, ''uD''), (''entity'', ''uE'', 2, ''uD''),
           (''unit'', ''u1'', 2, ''uD''), (''unit'', ''u2'', 2, ''uD''),
           (''unit'', ''u1'', 3, ''uD''), (''unit'', ''u2'', 3, ''uD'')]"
  by (simp add: pool2_all_parts_tree)

text \<open>
  Claim C1, as the code has it. The query ends in \<open>ORDER BY root, type_order, level\<close>:
  the printed tree is sorted by these three columns, in this order. The name is no sort
  column, so among rows with equal \<open>(root, type_order, level)\<close> no order of names holds.
\<close>

theorem tree_sorted_by_root_type_order_level:
  assumes "all_parts_tree db = Some rows"
  shows "sorted (map order_key rows)"
  using assms by (auto simp: all_parts_tree_Some sorted_all_parts_tree_rows)

theorem tree_sorted_by_root_type_order_level_witness:
  "\<exists>rows. all_parts_tree pool1 = Some rows \<and> sorted (map order_key rows)
     \<and> map order_key rows = [(''uP'', 0, 0), (''uP'', 1, 1), (''uP'', 2, 2), (''uP'', 3, 3),
                               (''uP'', 4, 1), (''uP'', 5, 2)]"
  using tree_sorted_by_root_type_order_level [OF pool1_all_parts_tree] pool1_all_parts_tree
  by (simp add: order_key_def)

text \<open>
  Claim C1 as stated fails. In \<open>pool2\<close> the units \<open>R10\<close> and \<open>R2\<close> have the same root,
  type order and level, and the tree lists \<open>R10\<close> before \<open>R2\<close>, against the natural
  order of the two names (and in line with their bytewise order, which an engine that
  compared the remaining columns would follow too).
\<close>

theorem tree_natural_name_order_counterexample:
  "map_option (map (\<lambda>r. (order_key r, t_name r))) (all_parts_tree pool2) =
     Some [((''uD'', 0, 0), Some ''D''), ((''uD'', 0, 1), Some ''B''),
           ((''uD'', 1, 1), Some ''E''), ((''uD'', 1, 2), Some ''E''),
           ((''uD'', 2, 2), Some ''R10''), ((''uD'', 2, 2), Some ''R2''),
           ((''uD'', 2, 3), Some ''R10''), ((''uD'', 2, 3), Some ''R2'')]
   \<and> natural_less ''R2'' ''R10'' \<and> \<not> natural_less ''R10'' ''R2''"
  by (simp add: pool2_all_parts_tree order_key_def natural_less_def is_digit_def digit_value_def)

section \<open>The column \<open>in_pr\<close> and the rows for symbols and 3D models\<close>

lemma in_pr_count_pos:
  "in_pr_count db typex uuidx \<noteq> 0 \<longleftrightarrow>
     (\<exists>c\<in>set (git_files_view db). ci_type c = typex \<and> ci_uuid c = uuidx)"
  by (auto simp: in_pr_count_def filter_empty_conv)

lemma in_pr_count_zero:
  "in_pr_count db typex uuidx = 0 \<longleftrightarrow>
     (\<forall>c\<in>set (git_files_view db). \<not> (ci_type c = typex \<and> ci_uuid c = uuidx))"
  using in_pr_count_pos [of db typex uuidx] by blast

lemma parts_tree_rows_from_pr:
  assumes "r \<in> set (parts_tree_rows db wu)"
  shows "from_pr r \<longleftrightarrow>
     (\<exists>c\<in>set (git_files_view db). ci_type c = t_type r \<and> ci_uuid c = t_uuid r)"
  using assms unfolding parts_tree_rows_def by (auto simp: from_pr_def in_pr_count_zero)

lemma set_model_rows:
  "set (model_rows db pt) =
     {\<lparr>t_type = ''model_3d'', t_name = Some (model_filename m), t_level = t_level p + 1,
       t_type_order = 5, t_in_pr = t_in_pr p, t_uuid = '''', t_root = t_root p\<rparr> | p m.
       p \<in> set pt \<and> m \<in> set (models db) \<and> t_type p = ''package''
       \<and> model_package_uuid m = t_uuid p}"
  unfolding model_rows_def set_map set_inner_join by force

lemma set_symbol_rows:
  "set (symbol_rows db pt) =
     {\<lparr>t_type = ''symbol'', t_name = Some (symbol_name s), t_level = t_level p + 1,
       t_type_order = 3, t_in_pr = t_in_pr p, t_uuid = symbol_uuid s, t_root = t_root p\<rparr> | p s.
       p \<in> set pt \<and> s \<in> set (symbols db) \<and> t_type p = ''unit''
       \<and> symbol_unit s = t_uuid p}"
  unfolding symbol_rows_def set_map set_inner_join by force

text \<open>
  Claim C4: every row of the printed tree, those added for symbols and 3D models
  included, is marked as from the change if and only if its \<open>(type, uuid)\<close> is that of a
  row of \<open>git_files_view\<close>. The rows that come from \<open>parts_tree\<close> are so
  (\<open>parts_tree_rows_from_pr\<close>). The added rows are not: the query gives them the \<open>in_pr\<close>
  of the unit or package row they are joined to (\<open>set_symbol_rows\<close>, \<open>set_model_rows\<close>)
  and never looks them up in \<open>git_files_view\<close>. In \<open>pool1\<close> the diff has the file of the
  unit \<open>U\<close> and not the file of its symbol \<open>S\<close>: the tree has one symbol row, that of
  \<open>S\<close>, with \<open>in_pr = 1\<close>, which the report prints in bold under its legend "Bold items
  are from this PR", and no changed record is the symbol \<open>S\<close>.
\<close>

theorem symbol_marked_though_unchanged:
  "map_option (filter (\<lambda>r. t_type r = ''symbol'')) (all_parts_tree pool1) =
     Some [\<lparr>t_type = ''symbol'', t_name = Some ''S'', t_level = 3, t_type_order = 3,
             t_in_pr = 1, t_uuid = ''uS'', t_root = ''uP''\<rparr>]
   \<and> from_pr \<lparr>t_type = ''symbol'', t_name = Some ''S'', t_level = 3, t_type_order = 3,
             t_in_pr = 1, t_uuid = ''uS'', t_root = ''uP''\<rparr>
   \<and> \<not> (\<exists>c\<in>set (git_files_view pool1). ci_type c = ''symbol'' \<and> ci_uuid c = ''uS'')"
  by (simp add: pool1_all_parts_tree pool1_git_files_view from_pr_def)

text \<open>
  Claim C5, as the code has it for depth and type order. Leaving the column \<open>in_pr\<close>
  aside, the printed tree holds the rows of \<open>parts_tree\<close>; one added row for each package
  row of \<open>parts_tree\<close> and each 3D model of that package, of type \<open>model_3d\<close>, named by
  the model's file, one level below the package row, with type order 5, the empty uuid
  and the root of the package row; one added row for each unit row of \<open>parts_tree\<close> and
  each symbol of that unit, of type \<open>symbol\<close>, with the symbol's name and uuid, one level
  below the unit row, with type order 3 and the root of the unit row; and nothing else.
  (A symbol or model that the table of dependencies itself leads to is a row of
  \<open>parts_tree\<close>, with the type order \<open>-1\<close> of the \<open>ELSE\<close> branch.)
\<close>

theorem added_rows_depth_and_type_order:
  assumes "parts_tree db = Some pt" "all_parts_tree db = Some rows"
  shows "without_in_pr ` set rows = without_in_pr ` set pt
     \<union> {(''model_3d'', Some (model_filename m), t_level p + 1, 5, '''', t_root p) | p m.
          p \<in> set pt \<and> m \<in> set (models db) \<and> t_type p = ''package''
          \<and> model_package_uuid m = t_uuid p}
     \<union> {(''symbol'', Some (symbol_name s), t_level p + 1, 3, symbol_uuid s, t_root p) | p s.
          p \<in> set pt \<and> s \<in> set (symbols db) \<and> t_type p = ''unit''
          \<and> symbol_unit s = t_uuid p}"
proof -
  have r: "set rows = set pt \<union> set (model_rows db pt) \<union> set (symbol_rows db pt)"
    using assms by (auto simp: all_parts_tree_Some set_all_parts_tree_rows)
  have m: "without_in_pr ` set (model_rows db pt) =
      {(''model_3d'', Some (model_filename m), t_level p + 1, 5, '''', t_root p) | p m.
          p \<in> set pt \<and> m \<in> set (models db) \<and> t_type p = ''package''
          \<and> model_package_uuid m = t_uuid p}"
    unfolding model_rows_def set_map set_inner_join image_image
    by (rule set_eqI) (force simp: without_in_pr_def)
  have s: "without_in_pr ` set (symbol_rows db pt) =
      {(''symbol'', Some (symbol_name s), t_level p + 1, 3, symbol_uuid s, t_root p) | p s.
          p \<in> set pt \<and> s \<in> set (symbols db) \<and> t_type p = ''unit''
          \<and> symbol_unit s = t_uuid p}"
    unfolding symbol_rows_def set_map set_inner_join image_image
    by (rule set_eqI) (force simp: without_in_pr_def)
  show ?thesis unfolding r image_Un m s ..
qed

theorem added_rows_depth_and_type_order_witness:
  "\<exists>pt rows. parts_tree pool1 = Some pt \<and> all_parts_tree pool1 = Some rows
    \<and> \<lparr>t_type = ''package'', t_name = Some ''K'', t_level = 1, t_type_order = 4,
        t_in_pr = 0, t_uuid = ''uK'', t_root = ''uP''\<rparr> \<in> set pt
    \<and> (''model_3d'', Some ''3d/K.step'', 2, 5, '''', ''uP'') \<in> without_in_pr ` set rows
    \<and> without_in_pr ` set rows = without_in_pr ` set pt
     \<union> {(''model_3d'', Some (model_filename m), t_level p + 1, 5, '''', t_root p) | p m.
          p \<in> set pt \<and> m \<in> set (models pool1) \<and> t_type p = ''package''
          \<and> model_package_uuid m = t_uuid p}
     \<union> {(''symbol'', Some (symbol_name s), t_level p + 1, 3, symbol_uuid s, t_root p) | p s.
          p \<in> set pt \<and> s \<in> set (symbols pool1) \<and> t_type p = ''unit''
          \<and> symbol_unit s = t_uuid p}"
proof -
  obtain pt where pt: "parts_tree pool1 = Some pt"
    "\<lparr>t_type = ''package'', t_name = Some ''K'', t_level = 1, t_type_order = 4,
        t_in_pr = 0, t_uuid = ''uK'', t_root = ''uP''\<rparr> \<in> set pt"
    using pool1_parts_tree by simp
  obtain rows where rows: "all_parts_tree pool1 = Some rows"
    "\<lparr>t_type = ''model_3d'', t_name = Some ''3d/K.step'', t_level = 2, t_type_order = 5,
        t_in_pr = 0, t_uuid = '''', t_root = ''uP''\<rparr> \<in> set rows"
    using pool1_all_parts_tree by simp
  have "without_in_pr \<lparr>t_type = ''model_3d'', t_name = Some ''3d/K.step'', t_level = 2,
        t_type_order = 5, t_in_pr = 0, t_uuid = '''', t_root = ''uP''\<rparr> \<in> without_in_pr ` set rows"
    using rows(2) by (rule imageI)
  then have m: "(''model_3d'', Some ''3d/K.step'', 2, 5, '''', ''uP'') \<in> without_in_pr ` set rows"
    by (simp add: without_in_pr_def)
  from added_rows_depth_and_type_order [OF pt(1) rows(1)] pt rows(1) m show ?thesis by blast
qed

text \<open>
  Claim C5 as stated fails in its last part: whether the file of the model or symbol
  changed does not enter the annotation of the added rows. The two diffs of \<open>pool1\<close> and
  \<open>pool1_symbol_changed\<close> differ in exactly that (the model's file in one, the symbol's
  file in the other), and the trees are the same, row by row: the symbol is marked, as
  its unit is, and the model is not, as its package is not.
\<close>

theorem synthesized_in_pr_counterexample:
  "all_parts_tree pool1_symbol_changed = all_parts_tree pool1
   \<and> map_option (map (\<lambda>r. (t_type r, t_in_pr r))) (all_parts_tree pool1) =
       Some [(''part'', 1), (''entity'', 0), (''unit'', 1), (''symbol'', 1),
             (''package'', 0), (''model_3d'', 0)]
   \<and> ''3d/K.step'' \<in> ci_filename ` set (git_files_view pool1)
   \<and> ''3d/K.step'' \<notin> ci_filename ` set (git_files_view pool1_symbol_changed)
   \<and> ''symbols/S.json'' \<notin> ci_filename ` set (git_files_view pool1)
   \<and> ''symbols/S.json'' \<in> ci_filename ` set (git_files_view pool1_symbol_changed)"
proof -
  have "git_files_view pool1_symbol_changed =
    [\<lparr>ci_type = ''part'', ci_uuid = ''uP'', ci_name = ''P'',
       ci_filename = ''parts/P.json'', ci_status = 3\<rparr>,
     \<lparr>ci_type = ''unit'', ci_uuid = ''uU'', ci_name = ''U'',
       ci_filename = ''units/U.json'', ci_status = 3\<rparr>,
     \<lparr>ci_type = ''symbol'', ci_uuid = ''uS'', ci_name = ''S'',
       ci_filename = ''symbols/S.json'', ci_status = 3\<rparr>]"
    by code_simp
  then show ?thesis
    by (simp add: pool1_symbol_changed_all_parts_tree pool1_all_parts_tree pool1_git_files_view)
qed

section \<open>When the tree of derived parts is computed at all\<close>

lemma derived_path_prefix: "derived_path db (n + k) a b \<Longrightarrow> \<exists>c. derived_path db n a c"
proof (induction k arbitrary: b)
  case 0
  then show ?case by auto
next
  case (Suc k)
  from Suc.prems obtain p :: part where "derived_path db (n + k) a (part_base p)" by auto
  then show ?case by (rule Suc.IH)
qed

lemma derived_path_target:
  "derived_path db n a b \<Longrightarrow> b = a \<or> b \<in> part_uuid ` set (parts db)"
  by (cases n) auto

lemma derived_rows_finite:
  assumes "\<forall>r\<in>set (top_parts db). \<forall>u. \<not> derived_path db N r u"
  shows "finite (cte_rows (derived_initial db) (derived_step db))"
proof -
  let ?U = "set (top_parts db) \<union> part_uuid ` set (parts db)"
  let ?B = "(\<lambda>(u, n). \<lparr>du_uuidx = u, du_level = int n\<rparr>) ` (?U \<times> {..<N})"
  have "cte_rows (derived_initial db) (derived_step db) \<subseteq> ?B"
  proof
    fix w
    assume "w \<in> cte_rows (derived_initial db) (derived_step db)"
    then obtain n r where r: "r \<in> set (top_parts db)" "du_level w = int n"
      "derived_path db n r (du_uuidx w)"
      unfolding derived_rows by blast
    have "n < N"
    proof (rule ccontr)
      assume "\<not> n < N"
      then have "n = N + (n - N)" by simp
      then have "\<exists>c. derived_path db N r c" using r(3) derived_path_prefix by metis
      with assms r(1) show False by blast
    qed
    moreover have "du_uuidx w \<in> ?U" using derived_path_target [OF r(3)] r(1) by auto
    moreover have "w = \<lparr>du_uuidx = du_uuidx w, du_level = int n\<rparr>" using r(2) by simp
    ultimately show "w \<in> ?B" by (metis (mono_tags, lifting) SigmaI lessThan_iff pair_imageI)
  qed
  moreover have "finite ?B" by simp
  ultimately show ?thesis by (rule finite_subset)
qed

lemma levels_bounded: "\<exists>N. \<forall>w\<in>set rows. du_level w < int N"
proof (induction rows)
  case Nil
  then show ?case by simp
next
  case (Cons a rows)
  then obtain N where N: "\<forall>w\<in>set rows. du_level w < int N" by blast
  have "\<forall>w\<in>set (a # rows). du_level w < int (max N (nat (du_level a + 1)))"
    using N by auto
  then show ?case by blast
qed

lemma derived_where_used_terminates_iff:
  "(\<exists>rows. derived_where_used db = Some rows) \<longleftrightarrow>
     (\<exists>N. \<forall>r\<in>set (top_parts db). \<forall>u. \<not> derived_path db N r u)"
proof
  assume "\<exists>rows. derived_where_used db = Some rows"
  then obtain rows where rows: "derived_where_used db = Some rows" by blast
  then have s: "set rows = cte_rows (derived_initial db) (derived_step db)"
    unfolding derived_where_used_def by (simp add: recursive_union_result)
  obtain N where N: "\<forall>w\<in>set rows. du_level w < int N" using levels_bounded by blast
  have "\<forall>r\<in>set (top_parts db). \<forall>u. \<not> derived_path db N r u"
  proof (intro ballI allI notI)
    fix r u
    assume "r \<in> set (top_parts db)" "derived_path db N r u"
    then have "\<lparr>du_uuidx = u, du_level = int N\<rparr> \<in> set rows"
      unfolding s derived_rows by auto
    with N show False by auto
  qed
  then show "\<exists>N. \<forall>r\<in>set (top_parts db). \<forall>u. \<not> derived_path db N r u" ..
next
  assume "\<exists>N. \<forall>r\<in>set (top_parts db). \<forall>u. \<not> derived_path db N r u"
  then have "finite (cte_rows (derived_initial db) (derived_step db))"
    using derived_rows_finite by blast
  then show "\<exists>rows. derived_where_used db = Some rows"
    unfolding derived_where_used_def by (rule recursive_union_terminates)
qed

lemma derived_parts_tree_Some:
  "(\<exists>rows. derived_parts_tree db = Some rows) \<longleftrightarrow> (\<exists>wu. derived_where_used db = Some wu)"
  by (auto simp: derived_parts_tree_def)

lemma pool3_cycle: "derived_path pool3 n ''uA'' (if even n then ''uA'' else ''uB'')"
proof (induction n)
  case 0
  then show ?case by simp
next
  case (Suc n)
  show ?case
  proof (cases "even n")
    case True
    with Suc have "derived_path pool3 n ''uA'' ''uA''" by simp
    then have "derived_path pool3 (Suc n) ''uA'' ''uB''" by (simp add: pool3_def)
    with True show ?thesis by simp
  next
    case False
    with Suc have "derived_path pool3 n ''uA'' ''uB''" by simp
    then have "derived_path pool3 (Suc n) ''uA'' ''uA''" by (simp add: pool3_def)
    with False show ?thesis by simp
  qed
qed

text \<open>
  Claim C6, as the code has it. The recursive query behind \<open>derived_parts_tree\<close> keeps
  no set of visited parts and has no error to raise: its \<open>UNION\<close> compares the level
  too, so a part met again one level deeper is a new row. The query returns if and only
  if the chains of derived parts that start at a root have bounded length, that is, for
  some \<open>N\<close> no part is \<open>N\<close> steps of \<open>base\<close> away from a root. A pool without cycles
  of bases is of this kind.
\<close>

theorem derived_tree_returns_iff_depth_bounded:
  "(\<exists>rows. derived_parts_tree db = Some rows) \<longleftrightarrow>
     (\<exists>N. \<forall>r\<in>set (top_parts db). \<forall>u. \<not> derived_path db N r u)"
  unfolding derived_parts_tree_Some by (rule derived_where_used_terminates_iff)

theorem derived_tree_returns_iff_depth_bounded_witness:
  "top_parts pool1 = [''uP''] \<and> (\<forall>u. \<not> derived_path pool1 2 ''uP'' u)
   \<and> (\<exists>rows. derived_parts_tree pool1 = Some rows)"
proof -
  have p: "\<forall>u. \<not> derived_path pool1 2 ''uP'' u"
    by (simp add: numeral_2_eq_2) (auto simp: pool1_def nil_uuid_def)
  then have "\<forall>r\<in>set (top_parts pool1). \<forall>u. \<not> derived_path pool1 2 r u"
    by (simp add: pool1_top_parts)
  with derived_tree_returns_iff_depth_bounded [of pool1]
  have "\<exists>rows. derived_parts_tree pool1 = Some rows" by blast
  with p show ?thesis by (simp add: pool1_top_parts)
qed

text \<open>
  Claim C6 as stated fails. In \<open>pool3\<close> the parts \<open>A\<close> and \<open>B\<close> are each other's base
  and only \<open>A\<close> is in the diff, so \<open>A\<close> is a root. The query then finds \<open>A\<close> at every
  even and \<open>B\<close> at every odd level and never ends: no result, and no error either.
\<close>

theorem cyclic_derivation_counterexample: "derived_parts_tree pool3 = None"
proof -
  have "\<not> (\<exists>N. \<forall>r\<in>set (top_parts pool3). \<forall>u. \<not> derived_path pool3 N r u)"
    using pool3_cycle by (auto simp: pool3_top_parts)
  then have "derived_where_used pool3 = None"
    using derived_where_used_terminates_iff [of pool3] by (cases "derived_where_used pool3") blast+
  then show ?thesis by (simp add: derived_parts_tree_def)
qed

section \<open>What a line leaves in the recording\<close>

text \<open>
  Claim C10, as the code has it. \<open>img_line\<close> appends one stroke to the recording. Its
  end points are the two coordinates, after the placement when \<open>tr\<close> is set, scaled
  by the matrix of the context; its line width is the constant \<open>0.1e6\<close>, whatever
  \<open>width\<close> the call passes. \<open>img_line\<close> leaves the matrix and the cap as they are and the
  path empty, and the constructor sets the matrix to the scale \<open>(2e-5, -2e-5)\<close>, the
  same factor on both axes with the Y axis flipped.
\<close>

theorem img_line_records_fixed_width:
  "(let q0 = (if tr then transform ca p0 else p0);
        q1 = (if tr then transform ca p1 else p1);
        ca' = img_line ca p0 p1 width layer tr
    in recording (cr ca') = recording (cr ca) @
         [\<lparr>stroke_subpaths = path (cr ca) @
             [[(ctm_sx (cr ca) * real_of_int (sint (coord_x q0)),
                ctm_sy (cr ca) * real_of_int (sint (coord_y q0))),
               (ctm_sx (cr ca) * real_of_int (sint (coord_x q1)),
                ctm_sy (cr ca) * real_of_int (sint (coord_y q1)))]],
           stroke_line_width = 100000,
           stroke_scale = (ctm_sx (cr ca), ctm_sy (cr ca)),
           stroke_line_cap = line_cap (cr ca)\<rparr>]
      \<and> ctm_sx (cr ca') = ctm_sx (cr ca) \<and> ctm_sy (cr ca') = ctm_sy (cr ca)
      \<and> line_cap (cr ca') = line_cap (cr ca) \<and> path (cr ca') = [])
   \<and> ctm_sx (cr CanvasCairo2_new) = 2 / 100000 \<and> ctm_sy (cr CanvasCairo2_new) = - (2 / 100000)
   \<and> line_cap (cr CanvasCairo2_new) = LINE_CAP_ROUND
   \<and> path (cr CanvasCairo2_new) = [] \<and> recording (cr CanvasCairo2_new) = []"
  by (simp add: img_line_def Let_def stroke_def set_line_width_def line_to_def move_to_def
      to_device_def CanvasCairo2_new_def set_line_cap_def set_source_rgb_def scale_def
      Context_create_def)

text \<open>
  Claim C10 as stated fails. A line drawn with \<open>width = 7\<close> on a new canvas is recorded
  with the line width \<open>100000\<close>.
\<close>

theorem img_line_width_counterexample:
  "recording (cr (img_line CanvasCairo2_new \<lparr>coord_x = 0, coord_y = 0\<rparr>
        \<lparr>coord_x = 1000000, coord_y = 500000\<rparr> 7 0 False))
     = [\<lparr>stroke_subpaths = [[(0, 0), (20, - 10)]], stroke_line_width = 100000,
         stroke_scale = (2 / 100000, - (2 / 100000)), stroke_line_cap = LINE_CAP_ROUND\<rparr>]
   \<and> (100000 :: real) \<noteq> real (unat (7 :: 64 word))"
  by (simp add: img_line_def Let_def stroke_def set_line_width_def line_to_def move_to_def
      to_device_def CanvasCairo2_new_def set_line_cap_def set_source_rgb_def scale_def
      Context_create_def)

end
